theory Spec2Isabelle
  imports Main "HOL-Library.Word" "HOL-Library.Multiset"
begin

unbundle bit_operations_syntax

text \<open>
  A model of two parts of the kernel: the receive path of the RTL8139 driver
  (\<open>init_driver\<close> and the interrupt handler \<open>packet_handler\<close>) and the program loader
  of the shell (\<open>read_elf_file\<close>, \<open>allocate_segments\<close>, \<open>allocate_user_stack\<close>,
  \<open>release_segments\<close>, \<open>exec_command\<close>, \<open>execin_command\<close>). Integers have the widths of
  the source and wrap; device registers, allocators, page tables and the filesystem are
  inputs, and every call that leaves the modelled code is recorded in a trace.
\<close>

section \<open>Machine model shared by the driver and the loader\<close>

text \<open>
  Kernel memory is a byte store indexed by 64-bit addresses. Pointer arithmetic is
  arithmetic on \<open>64 word\<close> and wraps as \<open>uintptr_t\<close> does.
\<close>

type_synonym addr = "64 word"
type_synonym memory = "addr \<Rightarrow> 8 word"

text \<open>
  \<open>*reinterpret_cast<uint32_t*>(p)\<close> on x86-64: four bytes, least significant first.
\<close>

definition read_u32 :: "memory \<Rightarrow> addr \<Rightarrow> 32 word" where
  "read_u32 m a =
     ucast (m a) OR push_bit 8 (ucast (m (a + 1))) OR
     push_bit 16 (ucast (m (a + 2))) OR push_bit 24 (ucast (m (a + 3)))"

text \<open>
  Modelled from the spec: \<open>std::copy_n\<close> and \<open>std::fill_n\<close> of the kernel's own STL
  (\<open>stl/algorithms.hpp\<close>) are not part of the sources at hand. Both call sites pass the
  freshly allocated destination first, then the source, then the count; the copy runs
  forward, one byte at a time. \<open>fill_n\<close> takes destination, count and value.
\<close>

fun copy_n :: "memory \<Rightarrow> addr \<Rightarrow> addr \<Rightarrow> nat \<Rightarrow> memory" where
  "copy_n m dst src 0 = m"
| "copy_n m dst src (Suc n) = copy_n (m(dst := m src)) (dst + 1) (src + 1) n"

fun fill_n :: "memory \<Rightarrow> addr \<Rightarrow> nat \<Rightarrow> 8 word \<Rightarrow> memory" where
  "fill_n m dst 0 v = m"
| "fill_n m dst (Suc n) v = fill_n (m(dst := v)) (dst + 1) n v"

text \<open>
  The bytes of a buffer obtained from \<open>new char[n]\<close> after \<open>copy_n\<close> has filled it from
  \<open>src\<close>: the fresh buffer does not overlap the source, so it holds the \<open>n\<close> source
  bytes in order.
\<close>

definition copied_bytes :: "memory \<Rightarrow> addr \<Rightarrow> nat \<Rightarrow> 8 word list" where
  "copied_bytes m src n = map (\<lambda>i. m (src + of_nat i)) [0..<n]"

section \<open>RTL8139 receive path\<close>

definition CMD :: "32 word" where "CMD = 0x37"
definition IMR :: "32 word" where "IMR = 0x3C"
definition ISR :: "32 word" where "ISR = 0x3E"
definition RCR :: "32 word" where "RCR = 0x44"
definition CONFIG_1 :: "32 word" where "CONFIG_1 = 0x52"
definition RX_BUF :: "32 word" where "RX_BUF = 0x30"
definition RX_BUF_PTR :: "32 word" where "RX_BUF_PTR = 0x38"
definition RX_BUF_ADDR :: "32 word" where "RX_BUF_ADDR = 0x3A"
definition RX_MISSED :: "32 word" where "RX_MISSED = 0x4C"
definition RX_OK :: "16 word" where "RX_OK = 0x01"
definition CMD_NOT_EMPTY :: "8 word" where "CMD_NOT_EMPTY = 0x01"

definition RCR_AAP :: "32 word" where "RCR_AAP = push_bit 0 1"
definition RCR_APM :: "32 word" where "RCR_APM = push_bit 1 1"
definition RCR_AM :: "32 word" where "RCR_AM = push_bit 2 1"
definition RCR_AB :: "32 word" where "RCR_AB = push_bit 3 1"
definition RCR_WRAP :: "32 word" where "RCR_WRAP = push_bit 7 1"

definition RX_BAD_ALIGN :: "32 word" where "RX_BAD_ALIGN = 0x2"
definition RX_CRC_ERR :: "32 word" where "RX_CRC_ERR = 0x4"
definition RX_TOO_LONG :: "32 word" where "RX_TOO_LONG = 0x8"
definition RX_RUNT :: "32 word" where "RX_RUNT = 0x10"
definition RX_BAD_SYMBOL :: "32 word" where "RX_BAD_SYMBOL = 0x20"

record rtl8139_t =
  iobase :: "32 word"
  phys_buffer_rx :: "64 word"
  buffer_rx :: "64 word"
  cur_rx :: "64 word"

text \<open>
  What the driver does to the outside world. Ports are 16 bits wide on x86, so the
  32-bit sum \<open>iobase + register\<close> is truncated when it is passed to the port routines,
  and \<open>out_word\<close> writes the low 16 bits of its argument.
\<close>

datatype io_event =
    Pci_write "32 word" "32 word"
  | Out_byte "16 word" "8 word"
  | Out_word "16 word" "16 word"
  | Out_dword "16 word" "32 word"
  | Register_irq_handler "32 word"
  | Map_failed_log
  | Ethernet_decode "8 word list"

definition port :: "32 word \<Rightarrow> 32 word \<Rightarrow> 16 word" where
  "port base reg = ucast (base + reg)"

text \<open>
  One pass through the body of the drain loop of \<open>packet_handler\<close>, for the ring
  contents \<open>m\<close> seen by that pass and the cursor \<open>cur\<close> it starts from. The record keeps
  the locals of the pass: the offset, the header, the packet handed to the decoder (if
  any), the new cursor and the value written to the read-pointer register. The trace
  logging of the source has no effect on the driver and is left out.
\<close>

record rx_pass =
  pass_offset :: "64 word"
  pass_status :: "32 word"
  pass_length :: "32 word"
  pass_forwarded :: "8 word list option"
  pass_cur_rx :: "64 word"
  pass_buf_ptr :: "16 word"

definition rx_error_bits :: "32 word" where
  "rx_error_bits = RX_BAD_SYMBOL OR RX_RUNT OR RX_TOO_LONG OR RX_CRC_ERR OR RX_BAD_ALIGN"

definition drain_pass :: "rtl8139_t \<Rightarrow> memory \<Rightarrow> 64 word \<Rightarrow> rx_pass" where
  "drain_pass desc m cur =
     (let cur_offset = cur mod 0x3000;
          packet_status = read_u32 m (buffer_rx desc + cur_offset);
          packet_length = drop_bit 16 packet_status;
          packet_payload = buffer_rx desc + cur_offset + 4;
          fwd = (if packet_status AND rx_error_bits \<noteq> 0 then None
                 else if packet_length = 0 then None
                 else (let packet_only_length = packet_length - 4
                       in Some (copied_bytes m packet_payload (unat packet_only_length))));
          cur' = (cur + ucast packet_length + 4 + 3) AND NOT 3
      in \<lparr> pass_offset = cur_offset, pass_status = packet_status,
           pass_length = packet_length, pass_forwarded = fwd,
           pass_cur_rx = cur', pass_buf_ptr = ucast (cur' - 0x10) \<rparr>)"

definition pass_events :: "rtl8139_t \<Rightarrow> rx_pass \<Rightarrow> io_event list" where
  "pass_events desc p =
     (case pass_forwarded p of None \<Rightarrow> [] | Some bytes \<Rightarrow> [Ethernet_decode bytes]) @
     [Out_word (port (iobase desc) RX_BUF_PTR) (pass_buf_ptr p)]"

text \<open>
  The drain loop. Each element of the poll list is one evaluation of the loop
  condition: the byte read from the command register, together with the ring contents
  the following pass sees (the device writes the ring between passes). The loop ends at
  the first poll whose low bit is set. The device decides how long the loop runs; a
  poll list that ends before the device reports an empty ring yields \<open>None\<close>.
\<close>

type_synonym rx_poll = "8 word \<times> memory"

fun drain_loop :: "rtl8139_t \<Rightarrow> rx_poll list \<Rightarrow> 64 word \<Rightarrow> (rx_pass list \<times> 64 word) option" where
  "drain_loop desc [] cur = None"
| "drain_loop desc ((cmd, m) # polls) cur =
     (if cmd AND CMD_NOT_EMPTY = 0
      then (let p = drain_pass desc m cur
            in map_option (\<lambda>(ps, c). (p # ps, c)) (drain_loop desc polls (pass_cur_rx p)))
      else Some ([], cur))"

text \<open>
  \<open>packet_handler\<close>: \<open>isr\<close> is the value read from the interrupt status register. It is
  written back at once; the ring is drained only when the receive-OK bit is set.
\<close>

definition packet_handler ::
  "rtl8139_t \<Rightarrow> 16 word \<Rightarrow> rx_poll list \<Rightarrow> (rtl8139_t \<times> io_event list) option" where
  "packet_handler desc isr polls =
     (let ack = [Out_word (port (iobase desc) ISR) isr]
      in if isr AND RX_OK \<noteq> 0
         then (case drain_loop desc polls (cur_rx desc) of
                 None \<Rightarrow> None
               | Some (ps, cur) \<Rightarrow>
                   Some (desc\<lparr>cur_rx := cur\<rparr>, ack @ concat (map (pass_events desc) ps)))
         else Some (desc, ack))"


text \<open>
  \<open>rtl8139::init_driver\<close>. Everything the routine reads from outside is an input:
  the three configuration-space words, the bytes the command register returns while
  the driver waits for the reset to finish, the addresses handed out by the physical
  and the virtual allocator, the answer of \<open>paging::map_pages\<close>, and the device
  registers read for the MAC address.
\<close>

record init_env =
  pci_command :: "32 word"
  pci_bar0 :: "32 word"
  pci_interrupt :: "32 word"
  reset_polls :: "8 word list"
  physical_allocate :: "64 word"
  virtual_allocate :: "64 word"
  map_pages_ok :: bool
  in_byte :: "16 word \<Rightarrow> 8 word"

record init_result =
  init_desc :: rtl8139_t
  init_mac :: "64 word"
  init_memory :: memory
  init_events :: "io_event list"

text \<open>
  The wait for the reset bit has no bound in the source. It ends at the first poll
  with bit 4 clear; a poll list without such a byte means the device never finished.
\<close>

fun reset_done :: "8 word list \<Rightarrow> bool" where
  "reset_done [] = False"
| "reset_done (c # cs) = (if c AND 0x10 \<noteq> 0 then reset_done cs else True)"

definition read_mac :: "(16 word \<Rightarrow> 8 word) \<Rightarrow> 32 word \<Rightarrow> 64 word" where
  "read_mac inb base =
     fold (\<lambda>i mac. mac OR push_bit ((5 - i) * 8) (ucast (inb (port base (of_nat i)))))
          [0..<6] 0"

definition init_driver :: "init_env \<Rightarrow> memory \<Rightarrow> init_result option" where
  "init_driver env m =
     (let command_register = pci_command env OR 0x4;
          base = pci_bar0 env AND NOT 0x3;
          ev1 = [Pci_write 0x4 command_register,
                 Out_byte (port base CONFIG_1) 0x0,
                 Out_byte (port base CMD) 0x10]
      in if \<not> reset_done (reset_polls env) then None
         else
           (let buffer_rx_phys = physical_allocate env;
                ev2 = [Out_dword (port base RX_BUF) (ucast buffer_rx_phys),
                       Out_dword (port base RX_BUF_PTR) 0,
                       Out_dword (port base RX_BUF_ADDR) 0];
                buffer_rx_virt = virtual_allocate env;
                ev3 = (if \<not> map_pages_ok env then [Map_failed_log] else []);
                desc = \<lparr> iobase = base, phys_buffer_rx = buffer_rx_phys,
                         buffer_rx = buffer_rx_virt, cur_rx = 0 \<rparr>;
                m' = fill_n m (buffer_rx desc) 0x3000 0;
                irq = pci_interrupt env AND 0xFF;
                ev4 = [Register_irq_handler irq,
                       Out_word (port base IMR) 0x0005,
                       Out_dword (port base RCR)
                         (RCR_AAP OR RCR_APM OR RCR_AM OR RCR_AB OR RCR_WRAP),
                       Out_dword (port base RX_MISSED) 0x0,
                       Out_byte (port base CMD) 0x0C];
                mac = read_mac (in_byte env) base
            in Some \<lparr> init_desc = desc, init_mac = mac, init_memory = m',
                       init_events = ev1 @ ev2 @ ev3 @ ev4 \<rparr>))"

section \<open>Program loader\<close>

text \<open>
  Modelled from the spec: the paging helpers (\<open>paging.hpp\<close>) are not part of the
  sources at hand. Pages are 4 KiB (three pages are 12 KiB), \<open>page_align\<close> rounds an
  address down to its page and \<open>page_aligned\<close> tests for a page boundary. The
  protection flags are the x86 page-table bits.
\<close>

definition PAGE_SIZE :: "64 word" where "PAGE_SIZE = 4096"

definition page_align :: "addr \<Rightarrow> addr" where
  "page_align a = (a div PAGE_SIZE) * PAGE_SIZE"

definition page_aligned :: "addr \<Rightarrow> bool" where
  "page_aligned a = (a mod PAGE_SIZE = 0)"

definition PRESENT :: "8 word" where "PRESENT = 0x1"
definition WRITE :: "8 word" where "WRITE = 0x2"
definition USER :: "8 word" where "USER = 0x4"

text \<open>
  The program header fields the loader reads, and the part of the ELF header it uses.
  \<open>buffer\<close> is the address of the file content in kernel memory; the program header
  table is the overlay \<open>program_header_table[p]\<close>.
\<close>

record program_header =
  p_type :: "32 word"
  p_offset :: "64 word"
  p_vaddr :: "64 word"
  p_filesize :: "64 word"
  p_memsz :: "64 word"

record elf_image =
  buffer :: addr
  e_entry :: "64 word"
  e_phnum :: "16 word"
  program_header_table :: "nat \<Rightarrow> program_header"

text \<open>
  Calls that leave the loader, in the order they are made. The result of a call that
  can fail is recorded with it.
\<close>

datatype kernel_event =
    Print string
  | Print_line string
  | K_malloc "64 word" addr
  | K_free addr
  | Map_pages addr addr "64 word" "8 word" bool
  | Unmap_pages addr "64 word" bool
  | Copy_n addr addr "64 word"
  | Fill_n addr "64 word" "8 word"
  | Printf_returned "32 word"

text \<open>
  The state the loader works on: kernel memory, the set of virtual pages with a
  present mapping, the array of segment handles (\<open>0\<close> is \<open>nullptr\<close>) and the calls made
  so far.
\<close>

record loader_state =
  mem :: memory
  present :: "addr set"
  allocated_segments :: "nat \<Rightarrow> addr"
  trace :: "kernel_event list"

text \<open>
  Modelled from the spec: the allocator (\<open>k_malloc\<close>, \<open>k_free\<close>), the page mapper
  (\<open>map_pages\<close>, \<open>unmap_pages\<close>, \<open>page_present\<close>), the filesystem, the ELF check and
  \<open>unique_heap_array\<close> are not part of the sources at hand. Their answers are inputs:
  \<open>malloc_result env p\<close> is the block \<open>k_malloc\<close> returns for program header \<open>p\<close>
  (\<open>0\<close> when it fails), \<open>map_result env p\<close> and \<open>unmap_result env p\<close> say whether the
  mapper succeeds for that header, \<open>fresh_array\<close> is the content of a newly created
  handle array. A successful \<open>map_pages\<close> makes the pages of the range present, a
  successful \<open>unmap_pages\<close> makes them absent, and a failed call changes nothing.
\<close>

record kernel_env =
  malloc_result :: "nat \<Rightarrow> addr"
  map_result :: "nat \<Rightarrow> bool"
  unmap_result :: "nat \<Rightarrow> bool"
  stack_malloc_result :: addr
  stack_map_result :: bool
  mounted_partition :: bool
  mounted_disk :: bool
  read_file :: "string \<Rightarrow> 8 word list"
  is_valid :: "8 word list \<Rightarrow> bool"
  image_of :: "8 word list \<Rightarrow> elf_image"
  fresh_array :: "nat \<Rightarrow> addr"
  main_function :: "addr \<Rightarrow> loader_state \<Rightarrow> 32 word \<times> loader_state"

definition emit :: "kernel_event list \<Rightarrow> loader_state \<Rightarrow> loader_state" where
  "emit evs st = st\<lparr>trace := trace st @ evs\<rparr>"

definition page_range :: "addr \<Rightarrow> 64 word \<Rightarrow> addr list" where
  "page_range first_page pages =
     map (\<lambda>i. first_page + of_nat i * PAGE_SIZE) [0..<unat pages]"

definition page_present :: "loader_state \<Rightarrow> addr \<Rightarrow> bool" where
  "page_present st a = (page_align a \<in> present st)"

definition map_pages ::
  "bool \<Rightarrow> addr \<Rightarrow> addr \<Rightarrow> 64 word \<Rightarrow> 8 word \<Rightarrow> loader_state \<Rightarrow> loader_state" where
  "map_pages ok virt phys pages flags st =
     emit [Map_pages virt phys pages flags ok]
       (if ok then st\<lparr>present := present st \<union> set (page_range virt pages)\<rparr> else st)"

definition unmap_pages :: "bool \<Rightarrow> addr \<Rightarrow> 64 word \<Rightarrow> loader_state \<Rightarrow> loader_state" where
  "unmap_pages ok virt pages st =
     emit [Unmap_pages virt pages ok]
       (if ok then st\<lparr>present := present st - set (page_range virt pages)\<rparr> else st)"

definition aligned_block :: "addr \<Rightarrow> addr" where
  "aligned_block memory =
     (if page_aligned memory then memory else (memory div PAGE_SIZE + 1) * PAGE_SIZE)"

text \<open>
  The body of the loop of \<open>allocate_segments\<close> for program header \<open>p\<close>. The second
  component is \<open>failed\<close>; when it is set the loop is left.
\<close>

definition load_segment ::
  "kernel_env \<Rightarrow> elf_image \<Rightarrow> 8 word \<Rightarrow> nat \<Rightarrow> loader_state \<Rightarrow> loader_state \<times> bool" where
  "load_segment env img flags p st =
     (let p_header = program_header_table img p;
          st0 = st\<lparr>allocated_segments := (allocated_segments st)(p := 0)\<rparr>
      in if p_type p_header = 1
         then
           (let address = p_vaddr p_header;
                first_page = page_align address;
                left_padding = address - first_page;
                bytes = left_padding + PAGE_SIZE + p_memsz p_header;
                pages = bytes div PAGE_SIZE + 1
            in if list_ex (page_present st0) (page_range first_page pages)
               then (emit [Print_line ''Some pages are already mapped''] st0, True)
               else
                 (let memory = malloc_result env p;
                      st1 = emit [K_malloc bytes memory] st0
                  in if memory = 0
                     then (emit [Print_line ''Cannot allocate memory, probably out of memory''] st1,
                           True)
                     else
                       (let st2 = st1\<lparr>allocated_segments := (allocated_segments st1)(p := memory)\<rparr>;
                            aligned_memory = aligned_block memory;
                            ok = map_result env p;
                            st3 = map_pages ok first_page aligned_memory pages flags st2
                        in if \<not> ok
                           then (emit [Print_line ''Mapping the pages failed''] st3, True)
                           else
                             (let memory_start = aligned_memory + left_padding;
                                  src = buffer img + p_offset p_header;
                                  st4 = st3\<lparr>mem := copy_n (mem st3) memory_start src
                                                      (unat (p_memsz p_header))\<rparr>
                              in (emit [Copy_n memory_start src (p_memsz p_header)] st4,
                                  False)))))
         else (st0, False))"

fun allocate_loop ::
  "kernel_env \<Rightarrow> elf_image \<Rightarrow> 8 word \<Rightarrow> nat list \<Rightarrow> loader_state \<Rightarrow> loader_state \<times> bool" where
  "allocate_loop env img flags [] st = (st, False)"
| "allocate_loop env img flags (p # ps) st =
     (case load_segment env img flags p st of
        (st', True) \<Rightarrow> (st', True)
      | (st', False) \<Rightarrow> allocate_loop env img flags ps st')"

definition allocate_segments ::
  "kernel_env \<Rightarrow> elf_image \<Rightarrow> 8 word \<Rightarrow> loader_state \<Rightarrow> loader_state \<times> bool" where
  "allocate_segments env img flags st =
     allocate_loop env img flags [0..<unat (e_phnum img)] st"

text \<open>\<open>allocate_user_stack\<close>; the second component is the returned pointer.\<close>

definition allocate_user_stack ::
  "kernel_env \<Rightarrow> 64 word \<Rightarrow> 64 word \<Rightarrow> 8 word \<Rightarrow> loader_state \<Rightarrow> loader_state \<times> addr" where
  "allocate_user_stack env stack_address stack_size flags st =
     (let address = stack_address;
          first_page = page_align address;
          left_padding = address - first_page;
          bytes = left_padding + PAGE_SIZE + stack_size;
          pages = bytes div PAGE_SIZE + 1
      in if list_ex (page_present st) (page_range first_page pages)
         then (emit [Print_line ''Some pages are already mapped''] st, 0)
         else
           (let memory = stack_malloc_result env;
                st1 = emit [K_malloc bytes memory] st
            in if memory = 0
               then (emit [Print_line ''Cannot allocate memory, probably out of memory''] st1, 0)
               else
                 (let aligned_memory = aligned_block memory;
                      ok = stack_map_result env;
                      st2 = map_pages ok first_page aligned_memory pages flags st1
                  in if \<not> ok
                     then (emit [Print_line ''Mapping the pages failed''] st2, 0)
                     else
                       (let memory_start = aligned_memory + left_padding;
                            st3 = st2\<lparr>mem := fill_n (mem st2) memory_start (unat stack_size) 0\<rparr>
                        in (emit [Fill_n memory_start stack_size 0] st3, memory)))))"

text \<open>The body of the loop of \<open>release_segments\<close> for program header \<open>p\<close>.\<close>

definition release_segment :: "kernel_env \<Rightarrow> elf_image \<Rightarrow> nat \<Rightarrow> loader_state \<Rightarrow> loader_state" where
  "release_segment env img p st =
     (let p_header = program_header_table img p;
          a = allocated_segments st p
      in if a \<noteq> 0
         then
           (let st1 = emit [K_free a] st;
                address = p_vaddr p_header;
                first_page = page_align address;
                left_padding = address - first_page;
                bytes = left_padding + PAGE_SIZE + p_memsz p_header;
                pages = bytes div PAGE_SIZE + 1;
                ok = unmap_result env p;
                st2 = unmap_pages ok first_page pages st1
            in if \<not> ok
               then emit [Print_line ''Unmap failed, memory could be in invalid state''] st2
               else st2)
         else st)"

definition release_segments :: "kernel_env \<Rightarrow> elf_image \<Rightarrow> loader_state \<Rightarrow> loader_state" where
  "release_segments env img st =
     fold (release_segment env img) [0..<unat (e_phnum img)] st"

text \<open>
  \<open>read_elf_file\<close>: the content of the file, or nothing after a message that starts
  with the name of the calling command.
\<close>

definition read_elf_file ::
  "kernel_env \<Rightarrow> string \<Rightarrow> string \<Rightarrow> loader_state \<Rightarrow> loader_state \<times> 8 word list option" where
  "read_elf_file env file name st =
     (let content = read_file env file
      in if content = []
         then (emit [Print name, Print_line '': The file does not exist or is empty''] st, None)
         else if \<not> is_valid env content
         then (emit [Print name,
                     Print_line '': This file is not an ELF file or not in ELF64 format''] st,
               None)
         else (st, Some content))"

text \<open>
  \<open>exec_command\<close> either comes back to the shell or leaves the kernel through
  \<open>iretq\<close> at the entry point of the program; the statements after the \<open>iretq\<close> are
  not reached.
\<close>

datatype exec_result = Returned loader_state | Entered_user_mode loader_state "64 word"

definition exec_command :: "kernel_env \<Rightarrow> string list \<Rightarrow> loader_state \<Rightarrow> exec_result" where
  "exec_command env params st =
     (if length params < 2
      then Returned (emit [Print_line ''exec: Need the name of the executable to read''] st)
      else if \<not> mounted_partition env \<or> \<not> mounted_disk env
      then Returned (emit [Print_line ''Nothing is mounted''] st)
      else
        (case read_elf_file env (params ! 1) ''exec'' st of
           (st1, None) \<Rightarrow> Returned st1
         | (st1, Some content) \<Rightarrow>
             (let img = image_of env content;
                  st2 = st1\<lparr>allocated_segments := fresh_array env\<rparr>;
                  (st3, failed) = allocate_segments env img (PRESENT OR WRITE OR USER) st2
              in if \<not> failed
                 then
                   (let (st4, stack_physical) =
                          allocate_user_stack env 0x500000 (PAGE_SIZE * 2)
                            (PRESENT OR WRITE OR USER) st3
                    in if stack_physical \<noteq> 0
                       then Entered_user_mode st4 (e_entry img)
                       else Returned (release_segments env img
                              (emit [Print_line ''Unable to allocate a stack for the program''] st4)))
                 else Returned (release_segments env img
                        (emit [Print_line ''execin: Unable to execute the program''] st3)))))"

definition execin_command :: "kernel_env \<Rightarrow> string list \<Rightarrow> loader_state \<Rightarrow> loader_state" where
  "execin_command env params st =
     (if length params < 2
      then emit [Print_line ''execin: Need the name of the executable to read''] st
      else if \<not> mounted_partition env \<or> \<not> mounted_disk env
      then emit [Print_line ''Nothing is mounted''] st
      else
        (case read_elf_file env (params ! 1) ''execin'' st of
           (st1, None) \<Rightarrow> st1
         | (st1, Some content) \<Rightarrow>
             (let img = image_of env content;
                  st2 = st1\<lparr>allocated_segments := fresh_array env\<rparr>;
                  (st3, failed) = allocate_segments env img (PRESENT OR WRITE) st2;
                  st5 = (if \<not> failed
                         then (let (return_code, st4) = main_function env (e_entry img) st3
                               in emit [Printf_returned return_code] st4)
                         else emit [Print_line ''execin: Unable to execute the program''] st3)
              in release_segments env img st5)))"


section \<open>Observations on the loader's calls\<close>

text \<open>
  The page range of program header \<open>p\<close>, as \<open>allocate_segments\<close> and
  \<open>release_segments\<close> both compute it.
\<close>

definition seg_first_page :: "elf_image \<Rightarrow> nat \<Rightarrow> addr" where
  "seg_first_page img p = page_align (p_vaddr (program_header_table img p))"

definition seg_bytes :: "elf_image \<Rightarrow> nat \<Rightarrow> 64 word" where
  "seg_bytes img p =
     (p_vaddr (program_header_table img p) - seg_first_page img p) + PAGE_SIZE +
     p_memsz (program_header_table img p)"

definition seg_pages :: "elf_image \<Rightarrow> nat \<Rightarrow> 64 word" where
  "seg_pages img p = seg_bytes img p div PAGE_SIZE + 1"

text \<open>
  Projections of a call trace: the blocks returned by successful \<open>k_malloc\<close> calls, the
  blocks passed to \<open>k_free\<close>, and the \<open>map_pages\<close> calls.
\<close>

definition mallocs :: "kernel_event list \<Rightarrow> addr list" where
  "mallocs tr = concat (map (\<lambda>e. case e of K_malloc b a \<Rightarrow> (if a \<noteq> 0 then [a] else []) | _ \<Rightarrow> []) tr)"

definition frees :: "kernel_event list \<Rightarrow> addr list" where
  "frees tr = concat (map (\<lambda>e. case e of K_free a \<Rightarrow> [a] | _ \<Rightarrow> []) tr)"

definition maps :: "kernel_event list \<Rightarrow> kernel_event list" where
  "maps tr = filter (\<lambda>e. case e of Map_pages v ph n f ok \<Rightarrow> True | _ \<Rightarrow> False) tr"

text \<open>
  The calls one pass of the loop of \<open>release_segments\<close> makes for a given handle array.
\<close>

definition release_events :: "kernel_env \<Rightarrow> elf_image \<Rightarrow> (nat \<Rightarrow> addr) \<Rightarrow> nat \<Rightarrow> kernel_event list" where
  "release_events env img segs p =
     (if segs p \<noteq> 0
      then [K_free (segs p),
            Unmap_pages (seg_first_page img p) (seg_pages img p) (unmap_result env p)] @
           (if unmap_result env p then []
            else [Print_line ''Unmap failed, memory could be in invalid state''])
      else [])"

text \<open>
  The blocks a trace leaves allocated: a block is tracked from the \<open>k_malloc\<close> call that
  returned it to the \<open>k_free\<close> call that is given it.
\<close>

fun track :: "kernel_event \<Rightarrow> addr list \<Rightarrow> addr list" where
  "track (K_malloc b a) live = (if a \<noteq> 0 then a # live else live)"
| "track (K_free a) live = remove1 a live"
| "track _ live = live"

definition tracked_handles :: "kernel_event list \<Rightarrow> addr list" where
  "tracked_handles tr = fold track tr []"

definition is_print :: "kernel_event \<Rightarrow> bool" where
  "is_print e = (case e of Print s \<Rightarrow> True | Print_line s \<Rightarrow> True | _ \<Rightarrow> False)"

section \<open>Concrete inputs\<close>

text \<open>
  A descriptor whose ring starts at \<open>0x1000\<close>, and ring contents: a good frame of
  length 8 with payload bytes \<open>AB CD 00 00\<close>, a frame of length 64 with the CRC error
  bit set, headers without error bits and with lengths 3 and 4, and a good frame of
  length 64.
\<close>

definition d0 :: rtl8139_t where
  "d0 = \<lparr>iobase = 0xC000, phys_buffer_rx = 0x200000, buffer_rx = 0x1000, cur_rx = 0\<rparr>"

definition mem0 :: memory where
  "mem0 = (\<lambda>_. 0)(0x1000 := 1, 0x1002 := 8, 0x1004 := 0xAB, 0x1005 := 0xCD)"

definition mem_crc :: memory where
  "mem_crc = (\<lambda>_. 0)(0x1000 := 5, 0x1002 := 64, 0x1004 := 0xAB)"

definition mem_len3 :: memory where
  "mem_len3 = (\<lambda>_. 0)(0x1000 := 1, 0x1002 := 3)"

definition mem_len4 :: memory where
  "mem_len4 = (\<lambda>_. 0)(0x1000 := 1, 0x1002 := 4)"

definition mem64 :: memory where
  "mem64 = (\<lambda>_. 0)(0x1000 := 1, 0x1002 := 64, 0x1004 := 0x7F)"

text \<open>
  A device at I/O base \<open>0xC000\<close> that finishes its reset at the third poll, with the
  ring mapped at \<open>0x1000\<close>.
\<close>

definition env0 :: init_env where
  "env0 = \<lparr> pci_command = 0, pci_bar0 = 0xC001, pci_interrupt = 0x10B,
            reset_polls = [0x10, 0x10, 0x00], physical_allocate = 0x200000,
            virtual_allocate = 0x1000, map_pages_ok = True, in_byte = (\<lambda>_. 0x52) \<rparr>"

text \<open>
  Two loadable program headers, images with one and with both of them, an environment
  in which every allocation and mapping succeeds and no file can be read, and loader
  states: \<open>st_l\<close> has the page of the second header already mapped and an empty handle
  array, \<open>st_stale\<close> has the page of the first header already mapped and a handle array
  full of stale values, \<open>st_a\<close> is \<open>st_l\<close> after the first header has been loaded.
\<close>

definition hdr_a :: program_header where
  "hdr_a = \<lparr>p_type = 1, p_offset = 0x40, p_vaddr = 0x400010, p_filesize = 1, p_memsz = 2\<rparr>"

definition hdr_b :: program_header where
  "hdr_b = \<lparr>p_type = 1, p_offset = 0x80, p_vaddr = 0x600010, p_filesize = 2, p_memsz = 2\<rparr>"

definition img1 :: elf_image where
  "img1 = \<lparr>buffer = 0x10000, e_entry = 0x400000, e_phnum = 1,
           program_header_table = (\<lambda>p. hdr_a)\<rparr>"

definition img2 :: elf_image where
  "img2 = \<lparr>buffer = 0x10000, e_entry = 0x400000, e_phnum = 2,
           program_header_table = (\<lambda>p. if p = 0 then hdr_a else hdr_b)\<rparr>"

definition env_l :: kernel_env where
  "env_l = \<lparr>malloc_result = (\<lambda>p. 0x200000), map_result = (\<lambda>p. True),
            unmap_result = (\<lambda>p. True), stack_malloc_result = 0x300000,
            stack_map_result = True, mounted_partition = True, mounted_disk = True,
            read_file = (\<lambda>f. []), is_valid = (\<lambda>c. False), image_of = (\<lambda>c. img2),
            fresh_array = (\<lambda>p. 0), main_function = (\<lambda>e st. (0, st))\<rparr>"

definition st_l :: loader_state where
  "st_l = \<lparr>mem = (\<lambda>a. 0xEE)(0x10040 := 0x11, 0x10041 := 0x22), present = {0x600000},
           allocated_segments = (\<lambda>p. 0), trace = []\<rparr>"

definition st_stale :: loader_state where
  "st_stale = \<lparr>mem = (\<lambda>a. 0xEE), present = {0x400000},
           allocated_segments = (\<lambda>p. 0x700000), trace = []\<rparr>"

definition fl0 :: "8 word" where "fl0 = PRESENT OR WRITE"

definition st_a :: loader_state where
  "st_a = \<lparr>mem = copy_n (mem st_l) 0x200010 0x10040 2,
           present = {0x600000, 0x400000, 0x401000},
           allocated_segments = (\<lambda>p. 0)(0 := 0x200000),
           trace = [K_malloc 0x1012 0x200000, Map_pages 0x400000 0x200000 2 fl0 True,
                    Copy_n 0x200010 0x10040 2]\<rparr>"

section \<open>Receive path: properties\<close>

lemma rx_error_bits_val: "rx_error_bits = 0x3E"
  by (simp add: rx_error_bits_def RX_BAD_SYMBOL_def RX_RUNT_def RX_TOO_LONG_def RX_CRC_ERR_def RX_BAD_ALIGN_def)

lemma and_or_zero_iff: "(x AND (a OR b) = 0) = (x AND a = 0 \<and> x AND b = 0)" for x :: "'a::len word"
  by (auto simp: bit_eq_iff bit_and_iff bit_or_iff)

lemma error_bits_split:
  "(s AND rx_error_bits = 0) =
   (s AND RX_BAD_SYMBOL = 0 \<and> s AND RX_RUNT = 0 \<and> s AND RX_TOO_LONG = 0 \<and>
    s AND RX_CRC_ERR = 0 \<and> s AND RX_BAD_ALIGN = 0)"
  unfolding rx_error_bits_def by (simp add: and_or_zero_iff conj_assoc)

lemma copied_bytes_length: "length (copied_bytes m src n) = n"
  by (simp add: copied_bytes_def)

lemma copied_bytes_nth: "i < n \<Longrightarrow> copied_bytes m src n ! i = m (src + of_nat i)"
  by (simp add: copied_bytes_def)

text \<open>
  \<open>copied_bytes\<close> is what \<open>copy_n\<close> leaves in a destination that does not overlap the
  source.
\<close>

lemma copy_n_outside:
  "(\<forall>i < n. a \<noteq> dst + of_nat i) \<Longrightarrow> copy_n m dst src n a = m a"
proof (induction n arbitrary: m dst src)
  case 0
  then show ?case by simp
next
  case (Suc n)
  have a0: "a \<noteq> dst" using Suc.prems [rule_format, of 0] by simp
  have "\<forall>i < n. a \<noteq> (dst + 1) + of_nat i"
  proof (intro allI impI)
    fix i assume "i < n"
    hence "a \<noteq> dst + of_nat (Suc i)" using Suc.prems [rule_format, of "Suc i"] by simp
    thus "a \<noteq> (dst + 1) + of_nat i" by (simp add: ac_simps)
  qed
  from Suc.IH [OF this] a0 show ?case by simp
qed

lemma copy_n_fresh:
  assumes apart: "\<forall>i < n. \<forall>j < n. dst + of_nat i \<noteq> src + of_nat j"
    and small: "n \<le> 2 ^ 64"
  shows "\<forall>i < n. copy_n m dst src n (dst + of_nat i) = m (src + of_nat i)"
  using assms
proof (induction n arbitrary: m dst src)
  case 0
  then show ?case by simp
next
  case (Suc n)
  let ?m = "m(dst := m src)"
  have ap': "\<forall>i < n. \<forall>j < n. (dst + 1) + of_nat i \<noteq> (src + 1) + of_nat j"
  proof (intro allI impI)
    fix i j assume "i < n" "j < n"
    hence "dst + of_nat (Suc i) \<noteq> src + of_nat (Suc j)"
      using Suc.prems(1) [rule_format, of "Suc i" "Suc j"] by simp
    thus "(dst + 1) + of_nat i \<noteq> (src + 1) + of_nat j" by (simp add: ac_simps)
  qed
  have sm': "n \<le> 2 ^ 64" using Suc.prems(2) by simp
  note ih = Suc.IH [OF ap' sm', of ?m]
  show ?case
  proof (intro allI impI)
    fix i assume i: "i < Suc n"
    show "copy_n m dst src (Suc n) (dst + of_nat i) = m (src + of_nat i)"
    proof (cases i)
      case 0
      have "\<forall>k < n. dst \<noteq> (dst + 1) + of_nat k"
      proof (intro allI impI)
        fix k assume k: "k < n"
        hence "Suc k < 2 ^ 64" using Suc.prems(2) by simp
        hence "\<not> (2 :: nat) ^ 64 dvd Suc k" by (auto dest: dvd_imp_le)
        hence "(of_nat (Suc k) :: 64 word) \<noteq> 0"
          by (simp add: word_of_nat_eq_0_iff del: of_nat_Suc)
        thus "dst \<noteq> (dst + 1) + of_nat k" by (simp add: ac_simps)
      qed
      from copy_n_outside [OF this, of ?m "src + 1"] 0 show ?thesis by simp
    next
      case (Suc k)
      hence k: "k < n" using i by simp
      have "src + of_nat (Suc k) \<noteq> dst + of_nat 0"
        using Suc.prems(1) [rule_format, of 0 "Suc k"] k by simp
      hence ne: "(src + 1) + of_nat k \<noteq> dst" by (simp add: ac_simps)
      have "copy_n ?m (dst + 1) (src + 1) n ((dst + 1) + of_nat k) = ?m ((src + 1) + of_nat k)"
        using ih k by blast
      thus ?thesis using ne Suc by (simp add: ac_simps)
    qed
  qed
qed

lemma copied_bytes_copy_n:
  assumes "\<forall>i < n. \<forall>j < n. dst + of_nat i \<noteq> src + of_nat j" and "n \<le> 2 ^ 64"
  shows "copied_bytes (copy_n m dst src n) dst n = copied_bytes m src n"
  using copy_n_fresh [OF assms, of m] by (simp add: copied_bytes_def)

lemma aligned4: "4 dvd unat ((x :: 64 word) AND NOT 3)"
proof -
  have "(x AND NOT 3) AND 3 = 0" by (simp add: word_bw_assocs)
  hence "(x AND NOT 3) AND mask 2 = 0" by (simp add: mask_eq_exp_minus_1)
  hence "take_bit 2 (x AND NOT 3) = 0" by (simp add: take_bit_eq_mask)
  hence "take_bit 2 (unat (x AND NOT 3)) = 0"
    by (simp add: unsigned_take_bit_eq[symmetric])
  thus ?thesis by (simp add: take_bit_eq_mod mod_eq_0_iff_dvd)
qed


lemma pass_cur: "pass_cur_rx (drain_pass desc m cur) = (cur + ucast (pass_length (drain_pass desc m cur)) + 4 + 3) AND NOT 3"
  by (simp add: drain_pass_def Let_def)


text \<open>
  What a pass forwards for a header with no error bit and a length field other than
  zero: \<open>length - 4\<close> bytes in 32-bit arithmetic, taken from the ring at \<open>offset + 4\<close>
  onward.
\<close>

lemma forwarded_payload:
  fixes desc :: rtl8139_t and m :: memory and cur :: "64 word"
  defines "p \<equiv> drain_pass desc m cur"
  assumes ok: "pass_status p AND RX_BAD_SYMBOL = 0" "pass_status p AND RX_RUNT = 0"
    "pass_status p AND RX_TOO_LONG = 0" "pass_status p AND RX_CRC_ERR = 0"
    "pass_status p AND RX_BAD_ALIGN = 0"
    and len: "pass_length p \<noteq> 0"
  shows "\<exists>bytes. pass_forwarded p = Some bytes \<and>
           pass_events desc p = [Ethernet_decode bytes,
                                 Out_word (port (iobase desc) RX_BUF_PTR) (pass_buf_ptr p)] \<and>
           length bytes = unat (pass_length p - 4) \<and>
           (4 \<le> pass_length p \<longrightarrow> length bytes = unat (pass_length p) - 4) \<and>
           (\<forall>i < length bytes. bytes ! i = m (buffer_rx desc + pass_offset p + 4 + of_nat i)) \<and>
           (bytes \<noteq> [] \<longrightarrow> hd bytes = m (buffer_rx desc + pass_offset p + 4))"
proof -
  have e: "pass_status p AND rx_error_bits = 0"
    using ok by (simp add: error_bits_split)
  define bytes where "bytes = copied_bytes m (buffer_rx desc + pass_offset p + 4) (unat (pass_length p - 4))"
  have fwd: "pass_forwarded p = Some bytes"
    using e len unfolding p_def bytes_def by (simp add: drain_pass_def Let_def)
  have l: "length bytes = unat (pass_length p - 4)"
    by (simp add: bytes_def copied_bytes_length)
  have n: "\<forall>i < length bytes. bytes ! i = m (buffer_rx desc + pass_offset p + 4 + of_nat i)"
    by (simp add: bytes_def copied_bytes_length copied_bytes_nth)
  have h: "bytes \<noteq> [] \<longrightarrow> hd bytes = m (buffer_rx desc + pass_offset p + 4)"
  proof
    assume ne: "bytes \<noteq> []"
    hence "0 < length bytes" by simp
    with n have "bytes ! 0 = m (buffer_rx desc + pass_offset p + 4 + of_nat 0)" by blast
    thus "hd bytes = m (buffer_rx desc + pass_offset p + 4)"
      using ne by (simp add: hd_conv_nth)
  qed
  have s: "4 \<le> pass_length p \<longrightarrow> length bytes = unat (pass_length p) - 4"
    using l by (auto simp: unat_sub)
  show ?thesis
    using fwd l n h s by (simp add: pass_events_def)
qed

text \<open>
  Claim C5 as stated does not hold. Only the length zero is dropped, and the
  subtraction of the CRC is unsigned: a header without error bits and with length 3
  makes the handler forward \<open>2^32 - 1\<close> bytes, and a header with length 4 makes it
  forward an empty buffer, which has no first byte.
\<close>

theorem short_frame_length_wraps:
  "pass_status (drain_pass d0 mem_len3 0) AND rx_error_bits = 0 \<and>
   pass_length (drain_pass d0 mem_len3 0) = 3 \<and>
   map_option length (pass_forwarded (drain_pass d0 mem_len3 0)) = Some 4294967295 \<and>
   pass_status (drain_pass d0 mem_len4 0) AND rx_error_bits = 0 \<and>
   pass_length (drain_pass d0 mem_len4 0) = 4 \<and>
   pass_forwarded (drain_pass d0 mem_len4 0) = Some []"
proof -
  have s3: "pass_status (drain_pass d0 mem_len3 0) = 0x30001"
    by (simp add: drain_pass_def d0_def mem_len3_def read_u32_def Let_def)
  have l3: "pass_length (drain_pass d0 mem_len3 0) = 3"
    by (simp add: drain_pass_def d0_def mem_len3_def read_u32_def Let_def)
  have s4: "pass_status (drain_pass d0 mem_len4 0) = 0x40001"
    by (simp add: drain_pass_def d0_def mem_len4_def read_u32_def Let_def)
  have l4: "pass_length (drain_pass d0 mem_len4 0) = 4"
    by (simp add: drain_pass_def d0_def mem_len4_def read_u32_def Let_def)
  have f3: "map_option length (pass_forwarded (drain_pass d0 mem_len3 0)) = Some 4294967295"
    by (simp add: drain_pass_def d0_def mem_len3_def read_u32_def Let_def rx_error_bits_val
        copied_bytes_length unsigned_minus_1_eq_mask mask_eq_exp_minus_1)
  have f4: "pass_forwarded (drain_pass d0 mem_len4 0) = Some []"
    by (simp add: drain_pass_def d0_def mem_len4_def read_u32_def Let_def rx_error_bits_val
        copied_bytes_def)
  show ?thesis
    using l3 l4 f3 f4 by (simp add: s3 s4 rx_error_bits_val)
qed

text \<open>
  Claim C5, amended. A frame whose header has none of the five error bits set and a
  length field of at least 4 is handed to the link-layer decoder. The forwarded buffer
  has \<open>length - 4\<close> bytes and holds the ring bytes from \<open>offset + 4\<close> onward; when the
  length exceeds 4 the buffer is not empty and its first byte is the ring byte at
  \<open>offset + 4\<close>.
\<close>

theorem valid_frame_forwarded:
  fixes desc :: rtl8139_t and m :: memory and cur :: "64 word"
  defines "p \<equiv> drain_pass desc m cur"
  assumes ok: "pass_status p AND RX_BAD_SYMBOL = 0" "pass_status p AND RX_RUNT = 0"
    "pass_status p AND RX_TOO_LONG = 0" "pass_status p AND RX_CRC_ERR = 0"
    "pass_status p AND RX_BAD_ALIGN = 0"
    and len: "4 \<le> pass_length p"
  shows "\<exists>bytes. pass_forwarded p = Some bytes \<and>
           pass_events desc p = [Ethernet_decode bytes,
                                 Out_word (port (iobase desc) RX_BUF_PTR) (pass_buf_ptr p)] \<and>
           length bytes = unat (pass_length p) - 4 \<and>
           (\<forall>i < length bytes. bytes ! i = m (buffer_rx desc + pass_offset p + 4 + of_nat i)) \<and>
           (4 < pass_length p \<longrightarrow>
              bytes \<noteq> [] \<and> hd bytes = m (buffer_rx desc + pass_offset p + 4))"
proof -
  have nz: "pass_length p \<noteq> 0" using len by auto
  from forwarded_payload [OF ok [unfolded p_def] nz [unfolded p_def]]
  obtain bytes where b: "pass_forwarded p = Some bytes"
      "pass_events desc p = [Ethernet_decode bytes,
                             Out_word (port (iobase desc) RX_BUF_PTR) (pass_buf_ptr p)]"
      "4 \<le> pass_length p \<longrightarrow> length bytes = unat (pass_length p) - 4"
      "\<forall>i < length bytes. bytes ! i = m (buffer_rx desc + pass_offset p + 4 + of_nat i)"
      "bytes \<noteq> [] \<longrightarrow> hd bytes = m (buffer_rx desc + pass_offset p + 4)"
    unfolding p_def by blast
  have l: "length bytes = unat (pass_length p) - 4" using b(3) len by blast
  have h: "4 < pass_length p \<longrightarrow>
             bytes \<noteq> [] \<and> hd bytes = m (buffer_rx desc + pass_offset p + 4)"
  proof
    assume "4 < pass_length p"
    hence "4 < unat (pass_length p)" by (simp add: word_less_nat_alt)
    hence "bytes \<noteq> []" using l by auto
    thus "bytes \<noteq> [] \<and> hd bytes = m (buffer_rx desc + pass_offset p + 4)"
      using b(5) by blast
  qed
  show ?thesis using b(1,2,4) l h by blast
qed

theorem valid_frame_forwarded_witness:
  "pass_status (drain_pass d0 mem0 0) = 0x80001 \<and> pass_length (drain_pass d0 mem0 0) = 8 \<and>
   pass_offset (drain_pass d0 mem0 0) = 0 \<and>
   (\<exists>bytes. pass_forwarded (drain_pass d0 mem0 0) = Some bytes \<and> length bytes = 4 \<and>
      hd bytes = 0xAB \<and> bytes ! 1 = 0xCD)"
proof -
  have st: "pass_status (drain_pass d0 mem0 0) = 0x80001"
    by (simp add: drain_pass_def d0_def mem0_def read_u32_def Let_def)
  have ln: "pass_length (drain_pass d0 mem0 0) = 8"
    by (simp add: drain_pass_def d0_def mem0_def read_u32_def Let_def)
  have off: "pass_offset (drain_pass d0 mem0 0) = 0"
    by (simp add: drain_pass_def Let_def)
  from valid_frame_forwarded [of d0 mem0 0]
  obtain bytes where b: "pass_forwarded (drain_pass d0 mem0 0) = Some bytes"
      "length bytes = unat (pass_length (drain_pass d0 mem0 0)) - 4"
      "\<forall>i < length bytes. bytes ! i = mem0 (buffer_rx d0 + pass_offset (drain_pass d0 mem0 0) + 4 + of_nat i)"
      "hd bytes = mem0 (buffer_rx d0 + pass_offset (drain_pass d0 mem0 0) + 4)"
    by (auto simp: st ln RX_BAD_SYMBOL_def RX_RUNT_def RX_TOO_LONG_def RX_CRC_ERR_def RX_BAD_ALIGN_def)
  have l4: "length bytes = 4" using b(2) by (simp add: ln)
  have h: "hd bytes = 0xAB" using b(4) unfolding off by (simp add: d0_def mem0_def)
  have "bytes ! 1 = mem0 (buffer_rx d0 + pass_offset (drain_pass d0 mem0 0) + 4 + of_nat 1)"
    using b(3) l4 by simp
  hence n1: "bytes ! 1 = 0xCD" unfolding off by (simp add: d0_def mem0_def)
  show ?thesis using st ln off b(1) l4 h n1 by simp
qed


text \<open>
  Claim C6. A frame with the bad-symbol, runt, too-long, CRC-error or bad-alignment bit
  set, and likewise a frame whose length field is zero, is not forwarded: the only
  effect of the pass is the write to the read-pointer register. The cursor moves to
  \<open>(cur + length + 4 + 3) & ~3\<close>, and that is the formula for every frame, whatever the
  ring holds.
\<close>

theorem dropped_frame_advances:
  fixes desc :: rtl8139_t and m :: memory and cur :: "64 word"
  defines "p \<equiv> drain_pass desc m cur"
  assumes bad: "pass_status p AND RX_BAD_SYMBOL \<noteq> 0 \<or> pass_status p AND RX_RUNT \<noteq> 0 \<or>
                pass_status p AND RX_TOO_LONG \<noteq> 0 \<or> pass_status p AND RX_CRC_ERR \<noteq> 0 \<or>
                pass_status p AND RX_BAD_ALIGN \<noteq> 0 \<or> pass_length p = 0"
  shows "pass_forwarded p = None \<and>
         pass_events desc p = [Out_word (port (iobase desc) RX_BUF_PTR) (ucast (pass_cur_rx p - 0x10))] \<and>
         pass_cur_rx p = (cur + ucast (pass_length p) + 4 + 3) AND NOT 3 \<and>
         (\<forall>m'. pass_cur_rx (drain_pass desc m' cur) =
                 (cur + ucast (pass_length (drain_pass desc m' cur)) + 4 + 3) AND NOT 3)"
proof -
  have c: "pass_status p AND rx_error_bits \<noteq> 0 \<or> pass_length p = 0"
    using bad by (auto simp: error_bits_split)
  have f: "pass_forwarded p = None"
    using c unfolding p_def by (auto simp: drain_pass_def Let_def)
  have b: "pass_buf_ptr p = ucast (pass_cur_rx p - 0x10)"
    unfolding p_def by (simp add: drain_pass_def Let_def)
  show ?thesis
    using f b by (simp add: pass_events_def pass_cur p_def)
qed

theorem dropped_frame_advances_witness:
  "pass_status (drain_pass d0 mem_crc 0) AND RX_CRC_ERR \<noteq> 0 \<and>
   pass_length (drain_pass d0 mem_crc 0) = 64 \<and>
   pass_forwarded (drain_pass d0 mem_crc 0) = None \<and>
   pass_cur_rx (drain_pass d0 mem_crc 0) = 68 \<and>
   pass_length (drain_pass d0 (\<lambda>_. 0) 0) = 0 \<and>
   pass_forwarded (drain_pass d0 (\<lambda>_. 0) 0) = None \<and>
   pass_cur_rx (drain_pass d0 (\<lambda>_. 0) 0) = 4"
proof -
  have st: "pass_status (drain_pass d0 mem_crc 0) = 0x400005"
    by (simp add: drain_pass_def d0_def mem_crc_def read_u32_def Let_def)
  have ln: "pass_length (drain_pass d0 mem_crc 0) = 64"
    by (simp add: drain_pass_def d0_def mem_crc_def read_u32_def Let_def)
  have ln0: "pass_length (drain_pass d0 (\<lambda>_. 0) 0) = 0"
    by (simp add: drain_pass_def d0_def read_u32_def Let_def)
  have crc: "pass_status (drain_pass d0 mem_crc 0) AND RX_CRC_ERR \<noteq> 0"
    by (simp add: st RX_CRC_ERR_def)
  have a: "pass_forwarded (drain_pass d0 mem_crc 0) = None \<and> pass_cur_rx (drain_pass d0 mem_crc 0) = 68"
    using dropped_frame_advances [of d0 mem_crc 0] crc by (simp add: ln)
  have b: "pass_forwarded (drain_pass d0 (\<lambda>_. 0) 0) = None \<and> pass_cur_rx (drain_pass d0 (\<lambda>_. 0) 0) = 4"
    using dropped_frame_advances [of d0 "\<lambda>_. 0" 0] by (simp add: ln0)
  show ?thesis using crc ln ln0 a b by simp
qed

lemma drain_loop_run:
  assumes "\<forall>poll \<in> set polls. fst poll AND CMD_NOT_EMPTY = 0"
    and "cmd_end AND CMD_NOT_EMPTY \<noteq> 0"
  shows "\<exists>ps. drain_loop desc (polls @ [(cmd_end, m_end)]) cur
                 = Some (ps, last (cur # map pass_cur_rx ps)) \<and>
              length ps = length polls \<and>
              (\<forall>i < length ps. ps ! i = drain_pass desc (snd (polls ! i)) ((cur # map pass_cur_rx ps) ! i))"
  using assms
proof (induction polls arbitrary: cur)
  case Nil
  then show ?case by simp
next
  case (Cons poll polls)
  obtain cmd m where poll: "poll = (cmd, m)" by (cases poll)
  define p where "p = drain_pass desc m cur"
  from Cons.prems have c: "cmd AND CMD_NOT_EMPTY = 0" by (simp add: poll)
  from Cons.prems have r: "\<forall>poll \<in> set polls. fst poll AND CMD_NOT_EMPTY = 0" by simp
  from Cons.IH [OF r Cons.prems(2), of "pass_cur_rx p"]
  obtain ps where ps: "drain_loop desc (polls @ [(cmd_end, m_end)]) (pass_cur_rx p)
                 = Some (ps, last (pass_cur_rx p # map pass_cur_rx ps))"
      "length ps = length polls"
      "\<forall>i < length ps. ps ! i = drain_pass desc (snd (polls ! i)) ((pass_cur_rx p # map pass_cur_rx ps) ! i)"
    by blast
  have 1: "drain_loop desc ((poll # polls) @ [(cmd_end, m_end)]) cur
           = Some (p # ps, last (cur # map pass_cur_rx (p # ps)))"
    using c ps(1) by (simp add: poll p_def Let_def)
  have 2: "length (p # ps) = length (poll # polls)" using ps(2) by simp
  have 3: "\<forall>i < length (p # ps). (p # ps) ! i
             = drain_pass desc (snd ((poll # polls) ! i)) ((cur # map pass_cur_rx (p # ps)) ! i)"
  proof (intro allI impI)
    fix i assume "i < length (p # ps)"
    then show "(p # ps) ! i = drain_pass desc (snd ((poll # polls) ! i)) ((cur # map pass_cur_rx (p # ps)) ! i)"
      using ps(3) by (cases i) (simp_all add: p_def poll)
  qed
  from 1 2 3 show ?case by blast
qed

lemma pass_off: "pass_offset (drain_pass desc m cur) = cur mod 0x3000"
  by (simp add: drain_pass_def Let_def)

lemma pass_stat: "pass_status (drain_pass desc m cur) = read_u32 m (buffer_rx desc + cur mod 0x3000)"
  by (simp add: drain_pass_def Let_def)

lemma pass_aligned: "4 dvd unat (pass_cur_rx (drain_pass desc m cur))"
  unfolding pass_cur by (rule aligned4)

text \<open>
  Claim C7. Start the handler with the cursor at zero, and let the device keep the ring
  non-empty for any number of polls, with any ring contents at each pass. The handler
  returns, it has made one pass per poll, the cursor before and after every pass and
  the cursor stored back in the descriptor are multiples of 4, and every pass reads its
  header at the ring offset \<open>cursor mod 0x3000\<close>.
\<close>

theorem cursor_aligned_offset_wrapped:
  assumes run: "\<forall>poll \<in> set polls. fst poll AND CMD_NOT_EMPTY = 0"
    and fin: "cmd_end AND CMD_NOT_EMPTY \<noteq> 0"
    and start: "cur_rx desc = 0"
    and rok: "isr AND RX_OK \<noteq> 0"
  shows "\<exists>ps desc' evs.
           drain_loop desc (polls @ [(cmd_end, m_end)]) 0 = Some (ps, cur_rx desc') \<and>
           packet_handler desc isr (polls @ [(cmd_end, m_end)]) = Some (desc', evs) \<and>
           length ps = length polls \<and>
           4 dvd unat (cur_rx desc') \<and>
           cur_rx desc' = last (0 # map pass_cur_rx ps) \<and>
           (\<forall>i < length ps.
              4 dvd unat ((0 # map pass_cur_rx ps) ! i) \<and>
              4 dvd unat (pass_cur_rx (ps ! i)) \<and>
              pass_offset (ps ! i) = ((0 # map pass_cur_rx ps) ! i) mod 0x3000 \<and>
              unat (pass_offset (ps ! i)) = unat ((0 # map pass_cur_rx ps) ! i) mod 0x3000 \<and>
              pass_status (ps ! i) =
                read_u32 (snd (polls ! i)) (buffer_rx desc + ((0 # map pass_cur_rx ps) ! i) mod 0x3000))"
proof -
  from drain_loop_run [OF run fin, of desc m_end 0]
  obtain ps where ps: "drain_loop desc (polls @ [(cmd_end, m_end)]) 0
                 = Some (ps, last (0 # map pass_cur_rx ps))"
      "length ps = length polls"
      "\<forall>i < length ps. ps ! i = drain_pass desc (snd (polls ! i)) ((0 # map pass_cur_rx ps) ! i)"
    by blast
  define desc' where "desc' = desc\<lparr>cur_rx := last (0 # map pass_cur_rx ps)\<rparr>"
  have c: "cur_rx desc' = last (0 # map pass_cur_rx ps)" by (simp add: desc'_def)
  have h: "packet_handler desc isr (polls @ [(cmd_end, m_end)])
           = Some (desc', [Out_word (port (iobase desc) ISR) isr] @ concat (map (pass_events desc) ps))"
    using ps(1) rok start by (simp add: packet_handler_def desc'_def)
  have al: "4 dvd unat (pass_cur_rx (ps ! i))" if "i < length ps" for i
    using ps(3) that by (metis pass_aligned)
  have prev: "4 dvd unat ((0 # map pass_cur_rx ps) ! i)" if "i < length ps" for i
  proof (cases i)
    case 0 then show ?thesis by simp
  next
    case (Suc j)
    with that have "j < length ps" by simp
    then show ?thesis using al [of j] Suc by simp
  qed
  have fin4: "4 dvd unat (cur_rx desc')"
  proof (cases "ps = []")
    case True then show ?thesis by (simp add: c)
  next
    case False
    hence "last (0 # map pass_cur_rx ps) = pass_cur_rx (ps ! (length ps - 1))"
      by (simp add: last_map last_conv_nth)
    moreover have "length ps - 1 < length ps" using False by simp
    ultimately show ?thesis using al c by metis
  qed
  have offs: "pass_offset (ps ! i) = ((0 # map pass_cur_rx ps) ! i) mod 0x3000" if "i < length ps" for i
    using ps(3) that by (metis pass_off)
  have offn: "unat (pass_offset (ps ! i)) = unat ((0 # map pass_cur_rx ps) ! i) mod 0x3000" if "i < length ps" for i
    using offs [OF that] by (simp add: unat_mod)
  have sts: "pass_status (ps ! i) =
                read_u32 (snd (polls ! i)) (buffer_rx desc + ((0 # map pass_cur_rx ps) ! i) mod 0x3000)"
    if "i < length ps" for i
    using ps(3) that by (metis pass_stat)
  show ?thesis
    using ps(1,2) h c fin4 al prev offs offn sts by (metis (no_types, lifting))
qed

theorem cursor_aligned_offset_wrapped_witness:
  "cur_rx d0 = 0 \<and> (1 :: 16 word) AND RX_OK \<noteq> 0 \<and>
   (\<exists>ps desc' evs.
      drain_loop d0 [(0, mem0), (1, mem0)] 0 = Some (ps, cur_rx desc') \<and>
      packet_handler d0 1 [(0, mem0), (1, mem0)] = Some (desc', evs) \<and>
      length ps = 1 \<and> 4 dvd unat (cur_rx desc') \<and> pass_offset (ps ! 0) = 0)"
proof -
  have a: "\<forall>poll \<in> set [(0 :: 8 word, mem0)]. fst poll AND CMD_NOT_EMPTY = 0" by simp
  have b: "(1 :: 8 word) AND CMD_NOT_EMPTY \<noteq> 0" by (simp add: CMD_NOT_EMPTY_def)
  have c: "cur_rx d0 = 0" by (simp add: d0_def)
  have d: "(1 :: 16 word) AND RX_OK \<noteq> 0" by (simp add: RX_OK_def)
  from cursor_aligned_offset_wrapped [OF a b c d, of mem0]
  show ?thesis using c d by auto
qed

lemma fill_n_at:
  "n < 2 ^ 64 \<Longrightarrow> fill_n m dst n v a = (if unat (a - dst) < n then v else m a)"
proof (induction n arbitrary: m dst)
  case 0
  then show ?case by simp
next
  case (Suc n)
  have n: "n < 2 ^ 64" using Suc.prems by simp
  show ?case
  proof (cases "a = dst")
    case True
    have "dst - (dst + 1) = (- 1 :: 64 word)" by simp
    hence "unat (dst - (dst + 1)) = 2 ^ 64 - 1"
      by (simp add: unsigned_minus_1_eq_mask mask_eq_exp_minus_1)
    then show ?thesis using Suc.IH [OF n] Suc.prems True by simp
  next
    case False
    hence nz: "a - dst \<noteq> 0" by simp
    have e: "a - (dst + 1) = (a - dst) - 1" by simp
    have "unat ((a - dst) - 1) = unat (a - dst) - 1"
      using nz by (rule unat_minus_one)
    hence "unat (a - (dst + 1)) = unat (a - dst) - 1"
      by (simp only: e)
    moreover have "0 < unat (a - dst)" using nz by (simp add: unat_gt_0)
    ultimately show ?thesis using Suc.IH [OF n] False by auto
  qed
qed


lemma init_driver_Some:
  assumes "reset_done (reset_polls env)"
  shows "\<exists>r. init_driver env m0 = Some r \<and>
             init_desc r = \<lparr> iobase = pci_bar0 env AND NOT 0x3,
                              phys_buffer_rx = physical_allocate env,
                              buffer_rx = virtual_allocate env, cur_rx = 0 \<rparr> \<and>
             init_memory r = fill_n m0 (virtual_allocate env) 0x3000 0"
  using assms by (simp add: init_driver_def Let_def)

lemma drain_pass_64:
  assumes "read_u32 m (buffer_rx desc) AND rx_error_bits = 0"
    and "drop_bit 16 (read_u32 m (buffer_rx desc)) = 64"
  shows "pass_cur_rx (drain_pass desc m 0) = 68 \<and> pass_buf_ptr (drain_pass desc m 0) = 52 \<and>
         pass_offset (drain_pass desc m 0) = 0 \<and>
         pass_forwarded (drain_pass desc m 0) = Some (copied_bytes m (buffer_rx desc + 4) 60)"
  using assms by (simp add: drain_pass_def Let_def)

text \<open>
  Claim C8. When the device finishes its reset, \<open>init_driver\<close> returns a descriptor with
  the cursor at zero; exactly the \<open>0x3000\<close> bytes from the start of the ring are zero and
  no pass reads a header at an offset of \<open>0x3000\<close> or more. If the device then places a
  frame with no error bit and length 64 at the start of the ring, the handler forwards
  60 bytes, writes \<open>52\<close> to the read-pointer register and leaves the cursor at \<open>68\<close>.
\<close>

theorem init_then_one_frame:
  assumes rst: "reset_done (reset_polls env)"
    and valid: "read_u32 m1 (virtual_allocate env) AND
                  (RX_BAD_SYMBOL OR RX_RUNT OR RX_TOO_LONG OR RX_CRC_ERR OR RX_BAD_ALIGN) = 0"
    and len: "drop_bit 16 (read_u32 m1 (virtual_allocate env)) = 64"
    and rok: "isr AND RX_OK \<noteq> 0"
    and go: "cmd0 AND CMD_NOT_EMPTY = 0"
    and fin: "cmd1 AND CMD_NOT_EMPTY \<noteq> 0"
  shows "\<exists>r desc' bytes.
           init_driver env m0 = Some r \<and>
           cur_rx (init_desc r) = 0 \<and>
           buffer_rx (init_desc r) = virtual_allocate env \<and>
           (\<forall>a. init_memory r a =
                  (if unat (a - buffer_rx (init_desc r)) < 0x3000 then 0 else m0 a)) \<and>
           (\<forall>m cur. unat (pass_offset (drain_pass (init_desc r) m cur)) < 0x3000) \<and>
           packet_handler (init_desc r) isr [(cmd0, m1), (cmd1, m2)] =
             Some (desc', [Out_word (port (iobase (init_desc r)) ISR) isr,
                           Ethernet_decode bytes,
                           Out_word (port (iobase (init_desc r)) RX_BUF_PTR) 52]) \<and>
           length bytes = 60 \<and>
           cur_rx desc' = 68"
proof -
  from init_driver_Some [OF rst, of m0]
  obtain r where r: "init_driver env m0 = Some r"
      "init_desc r = \<lparr> iobase = pci_bar0 env AND NOT 0x3,
                       phys_buffer_rx = physical_allocate env,
                       buffer_rx = virtual_allocate env, cur_rx = 0 \<rparr>"
      "init_memory r = fill_n m0 (virtual_allocate env) 0x3000 0"
    by blast
  define desc where "desc = init_desc r"
  have c0: "cur_rx desc = 0" and b: "buffer_rx desc = virtual_allocate env"
    by (simp_all add: desc_def r(2))
  have z: "\<forall>a. init_memory r a = (if unat (a - buffer_rx desc) < 0x3000 then 0 else m0 a)"
    by (simp add: r(3) b fill_n_at)
  have cap: "\<forall>m cur. unat (pass_offset (drain_pass desc m cur)) < 0x3000"
  proof (intro allI)
    fix m :: memory and cur :: "64 word"
    have "unat (cur mod 0x3000) = unat cur mod 0x3000" by (simp add: unat_mod)
    thus "unat (pass_offset (drain_pass desc m cur)) < 0x3000" by (simp add: pass_off)
  qed
  have v: "read_u32 m1 (buffer_rx desc) AND rx_error_bits = 0"
    using valid by (simp add: b rx_error_bits_def)
  have l: "drop_bit 16 (read_u32 m1 (buffer_rx desc)) = 64"
    using len by (simp add: b)
  note p = drain_pass_64 [OF v l]
  define bytes where "bytes = copied_bytes m1 (buffer_rx desc + 4) 60"
  define desc' where "desc' = desc\<lparr>cur_rx := 68\<rparr>"
  have lp: "drain_loop desc [(cmd0, m1), (cmd1, m2)] 0 = Some ([drain_pass desc m1 0], 68)"
    using go fin p by (simp add: Let_def)
  have h: "packet_handler desc isr [(cmd0, m1), (cmd1, m2)] =
             Some (desc', [Out_word (port (iobase desc) ISR) isr,
                           Ethernet_decode bytes,
                           Out_word (port (iobase desc) RX_BUF_PTR) 52])"
    using rok lp p by (simp add: packet_handler_def c0 pass_events_def desc'_def bytes_def)
  have lb: "length bytes = 60" by (simp add: bytes_def copied_bytes_length)
  have c': "cur_rx desc' = 68" by (simp add: desc'_def)
  show ?thesis
    using r(1) c0 b z cap h lb c' unfolding desc_def by blast
qed

theorem init_then_one_frame_witness:
  "reset_done (reset_polls env0) \<and>
   (\<exists>r desc' evs. init_driver env0 (\<lambda>_. 0xFF) = Some r \<and> cur_rx (init_desc r) = 0 \<and>
      init_memory r 0x1000 = 0 \<and> init_memory r 0x3FFF = 0 \<and> init_memory r 0x4000 = 0xFF \<and>
      packet_handler (init_desc r) 1 [(0, mem64), (1, mem64)] = Some (desc', evs) \<and>
      last evs = Out_word 0xC038 52 \<and> cur_rx desc' = 68)"
proof -
  have rst: "reset_done (reset_polls env0)" by (simp add: env0_def)
  have hd: "read_u32 mem64 (virtual_allocate env0) = 0x400001"
    by (simp add: env0_def mem64_def read_u32_def)
  have valid: "read_u32 mem64 (virtual_allocate env0) AND
                  (RX_BAD_SYMBOL OR RX_RUNT OR RX_TOO_LONG OR RX_CRC_ERR OR RX_BAD_ALIGN) = 0"
    unfolding hd by (simp add: RX_BAD_SYMBOL_def RX_RUNT_def RX_TOO_LONG_def RX_CRC_ERR_def RX_BAD_ALIGN_def)
  have len: "drop_bit 16 (read_u32 mem64 (virtual_allocate env0)) = 64"
    unfolding hd by simp
  have rok: "(1 :: 16 word) AND RX_OK \<noteq> 0" by (simp add: RX_OK_def)
  have go: "(0 :: 8 word) AND CMD_NOT_EMPTY = 0" by simp
  have fin: "(1 :: 8 word) AND CMD_NOT_EMPTY \<noteq> 0" by (simp add: CMD_NOT_EMPTY_def)
  from init_then_one_frame [OF rst valid len rok go fin, of "\<lambda>_. 0xFF" mem64]
  obtain r desc' bytes where r: "init_driver env0 (\<lambda>_. 0xFF) = Some r"
     "cur_rx (init_desc r) = 0" "buffer_rx (init_desc r) = virtual_allocate env0"
     "\<forall>a. init_memory r a = (if unat (a - buffer_rx (init_desc r)) < 0x3000 then 0 else 0xFF)"
     "packet_handler (init_desc r) 1 [(0, mem64), (1, mem64)] =
             Some (desc', [Out_word (port (iobase (init_desc r)) ISR) 1,
                           Ethernet_decode bytes,
                           Out_word (port (iobase (init_desc r)) RX_BUF_PTR) 52])"
     "cur_rx desc' = 68"
    by blast
  have io: "iobase (init_desc r) = 0xC000"
    using r(1) rst by (auto simp: init_driver_def Let_def env0_def)
  have m1: "init_memory r 0x1000 = 0" "init_memory r 0x3FFF = 0" "init_memory r 0x4000 = 0xFF"
    using r(4) by (simp_all add: r(3) env0_def)
  show ?thesis
    using rst r(1,2,5,6) m1 by (simp add: io port_def RX_BUF_PTR_def)
qed

section \<open>Loader: properties\<close>

subsection \<open>The loop bodies and their traces\<close>

lemma mallocs_append: "mallocs (xs @ ys) = mallocs xs @ mallocs ys"
  by (simp add: mallocs_def)

lemma frees_append: "frees (xs @ ys) = frees xs @ frees ys"
  by (simp add: frees_def)

lemma maps_append: "maps (xs @ ys) = maps xs @ maps ys"
  by (simp add: maps_def)

lemma page_present_segs [simp]:
  "page_present (st\<lparr>allocated_segments := x\<rparr>) = page_present st"
  by (rule ext) (simp add: page_present_def)

lemma load_segment_cases:
  fixes env img flags p st
  defines "r \<equiv> load_segment env img flags p st"
  defines "conflict \<equiv> list_ex (page_present st) (page_range (seg_first_page img p) (seg_pages img p))"
  shows "snd r = (p_type (program_header_table img p) = 1 \<and>
                  (conflict \<or> malloc_result env p = 0 \<or> \<not> map_result env p))"
    and "\<And>q. q \<noteq> p \<Longrightarrow> allocated_segments (fst r) q = allocated_segments st q"
    and "allocated_segments (fst r) p =
           (if p_type (program_header_table img p) = 1 \<and> \<not> conflict then malloc_result env p else 0)"
    and "\<exists>evs. trace (fst r) = trace st @ evs \<and>
               mallocs evs = (if allocated_segments (fst r) p \<noteq> 0 then [allocated_segments (fst r) p] else []) \<and>
               frees evs = [] \<and>
               (allocated_segments (fst r) p = 0 \<longrightarrow> maps evs = [])"
    and "allocated_segments (fst r) p = 0 \<Longrightarrow> present (fst r) = present st"
  unfolding r_def conflict_def
  by (auto simp: load_segment_def Let_def emit_def map_pages_def
      seg_first_page_def seg_pages_def seg_bytes_def mallocs_def frees_def maps_def)

lemma allocate_loop_append:
  "allocate_loop env img flags (xs @ ys) st =
     (case allocate_loop env img flags xs st of
        (st', True) \<Rightarrow> (st', True)
      | (st', False) \<Rightarrow> allocate_loop env img flags ys st')"
  by (induction xs arbitrary: st) (auto split: prod.splits bool.splits)

lemma allocate_loop_ok:
  assumes "allocate_loop env img flags xs st = (st', False)" and "distinct xs"
  shows "(\<forall>q. q \<notin> set xs \<longrightarrow> allocated_segments st' q = allocated_segments st q) \<and>
         (\<exists>evs. trace st' = trace st @ evs \<and>
                mallocs evs = filter (\<lambda>a. a \<noteq> 0) (map (allocated_segments st') xs) \<and>
                frees evs = [])"
  using assms
proof (induction xs arbitrary: st)
  case Nil
  then show ?case by (simp add: mallocs_def frees_def)
next
  case (Cons p xs)
  define st1 where "st1 = fst (load_segment env img flags p st)"
  have ok: "snd (load_segment env img flags p st) = False"
    using Cons.prems(1) by (auto split: prod.splits bool.splits)
  hence ls: "load_segment env img flags p st = (st1, False)"
    by (simp add: st1_def prod_eq_iff)
  hence rest: "allocate_loop env img flags xs st1 = (st', False)"
    using Cons.prems(1) by simp
  have d: "distinct xs" and pn: "p \<notin> set xs" using Cons.prems(2) by simp_all
  from Cons.IH [OF rest d]
  obtain evs2 where ih: "\<forall>q. q \<notin> set xs \<longrightarrow> allocated_segments st' q = allocated_segments st1 q"
      "trace st' = trace st1 @ evs2"
      "mallocs evs2 = filter (\<lambda>a. a \<noteq> 0) (map (allocated_segments st') xs)"
      "frees evs2 = []"
    by blast
  from load_segment_cases(4) [of env img flags p st]
  obtain evs1 where e1: "trace st1 = trace st @ evs1"
      "mallocs evs1 = (if allocated_segments st1 p \<noteq> 0 then [allocated_segments st1 p] else [])"
      "frees evs1 = []"
    unfolding st1_def by blast
  have same: "allocated_segments st' p = allocated_segments st1 p" using ih(1) pn by blast
  have fr: "\<forall>q. q \<notin> set (p # xs) \<longrightarrow> allocated_segments st' q = allocated_segments st q"
    using ih(1) load_segment_cases(2) [of _ p env img flags st] by (simp add: st1_def)
  have tr: "trace st' = trace st @ (evs1 @ evs2)" using ih(2) e1(1) by simp
  have ml: "mallocs (evs1 @ evs2) = filter (\<lambda>a. a \<noteq> 0) (map (allocated_segments st') (p # xs))"
    using e1(2) ih(3) same by (simp add: mallocs_append)
  have fe: "frees (evs1 @ evs2) = []" using e1(3) ih(4) by (simp add: frees_append)
  from fr tr ml fe show ?case by blast
qed

lemma abort_at:
  assumes "p < n"
    and "allocate_loop env img flags [0..<p] st0 = (stp, False)"
    and "snd (load_segment env img flags p stp)"
  shows "allocate_loop env img flags [0..<n] st0 = (fst (load_segment env img flags p stp), True)"
proof -
  have "[0..<n] = [0..<p] @ [p..<n]"
    using upt_add_eq_append [of 0 p "n - p"] assms(1) by simp
  hence "[0..<n] = [0..<p] @ (p # [Suc p..<n])"
    using assms(1) by (simp add: upt_conv_Cons)
  hence "allocate_loop env img flags [0..<n] st0 =
           allocate_loop env img flags (p # [Suc p..<n]) stp"
    using assms(2) by (simp add: allocate_loop_append)
  moreover obtain st1 where l: "load_segment env img flags p stp = (st1, True)"
    using assms(3) by (cases "load_segment env img flags p stp") simp
  ultimately show ?thesis by simp
qed

lemma release_segment_fields:
  "allocated_segments (release_segment env img p st) = allocated_segments st"
  "mem (release_segment env img p st) = mem st"
  "trace (release_segment env img p st) =
     trace st @ release_events env img (allocated_segments st) p"
  by (simp_all add: release_segment_def Let_def emit_def unmap_pages_def release_events_def
      seg_first_page_def seg_pages_def seg_bytes_def)

lemma release_fold_fields:
  "allocated_segments (fold (release_segment env img) xs st) = allocated_segments st \<and>
   mem (fold (release_segment env img) xs st) = mem st \<and>
   trace (fold (release_segment env img) xs st) =
     trace st @ concat (map (release_events env img (allocated_segments st)) xs)"
  by (induction xs arbitrary: st) (simp_all add: release_segment_fields)

lemma frees_release_events:
  "frees (concat (map (release_events env img segs) xs)) = filter (\<lambda>a. a \<noteq> 0) (map segs xs)"
  by (induction xs) (simp_all add: frees_append release_events_def frees_def)

lemma mallocs_release_events:
  "mallocs (concat (map (release_events env img segs) xs)) = []"
  by (induction xs) (auto simp: mallocs_append release_events_def mallocs_def)

lemma release_segments_fields:
  "allocated_segments (release_segments env img st) = allocated_segments st"
  "mem (release_segments env img st) = mem st"
  "trace (release_segments env img st) =
     trace st @ concat (map (release_events env img (allocated_segments st)) [0..<unat (e_phnum img)])"
  by (simp_all add: release_segments_def release_fold_fields)

lemma abort_then_release:
  assumes p: "p < unat (e_phnum img)"
    and pre: "allocate_loop env img flags [0..<p] st0 = (stp, False)"
    and fail: "snd (load_segment env img flags p stp)"
  defines "st1 \<equiv> fst (load_segment env img flags p stp)"
  defines "n \<equiv> unat (e_phnum img)"
  shows "allocate_segments env img flags st0 = (st1, True)"
    and "\<forall>q. p < q \<longrightarrow> allocated_segments st1 q = allocated_segments st0 q"
    and "\<exists>evs. trace st1 = trace st0 @ evs \<and>
               mallocs evs = filter (\<lambda>a. a \<noteq> 0) (map (allocated_segments st1) [0..<Suc p]) \<and>
               frees evs = []"
proof -
  show "allocate_segments env img flags st0 = (st1, True)"
    unfolding allocate_segments_def st1_def by (rule abort_at [OF p pre fail])
  from allocate_loop_ok [OF pre distinct_upt]
  obtain evs0 where a: "\<forall>q. q \<notin> set [0..<p] \<longrightarrow> allocated_segments stp q = allocated_segments st0 q"
      "trace stp = trace st0 @ evs0"
      "mallocs evs0 = filter (\<lambda>a. a \<noteq> 0) (map (allocated_segments stp) [0..<p])"
      "frees evs0 = []"
    by blast
  from load_segment_cases(4) [of env img flags p stp]
  obtain evs1 where e1: "trace st1 = trace stp @ evs1"
      "mallocs evs1 = (if allocated_segments st1 p \<noteq> 0 then [allocated_segments st1 p] else [])"
      "frees evs1 = []"
    unfolding st1_def by blast
  have oth: "\<And>q. q \<noteq> p \<Longrightarrow> allocated_segments st1 q = allocated_segments stp q"
    unfolding st1_def by (rule load_segment_cases(2))
  show "\<forall>q. p < q \<longrightarrow> allocated_segments st1 q = allocated_segments st0 q"
    using a(1) oth by simp
  have meq: "map (allocated_segments stp) [0..<p] = map (allocated_segments st1) [0..<p]"
    using oth by simp
  have m0: "mallocs evs0 = filter (\<lambda>a. a \<noteq> 0) (map (allocated_segments st1) [0..<p])"
    using a(3) by (simp only: meq)
  have "mallocs (evs0 @ evs1) = filter (\<lambda>a. a \<noteq> 0) (map (allocated_segments st1) [0..<Suc p])"
    by (simp add: mallocs_append m0 e1(2))
  moreover have "trace st1 = trace st0 @ (evs0 @ evs1)" using a(2) e1(1) by simp
  moreover have "frees (evs0 @ evs1) = []" using a(4) e1(3) by (simp add: frees_append)
  ultimately show "\<exists>evs. trace st1 = trace st0 @ evs \<and>
               mallocs evs = filter (\<lambda>a. a \<noteq> 0) (map (allocated_segments st1) [0..<Suc p]) \<and>
               frees evs = []"
    by blast
qed

lemma track_no_frees:
  "frees evs = [] \<Longrightarrow> mset (fold track evs live) = mset live + mset (mallocs evs)"
proof (induction evs arbitrary: live)
  case Nil
  then show ?case by (simp add: mallocs_def)
next
  case (Cons e evs)
  have f: "frees evs = []" using Cons.prems by (simp add: frees_def)
  show ?case
    using Cons.IH [OF f] Cons.prems by (cases e) (simp_all add: mallocs_def frees_def)
qed

lemma track_no_mallocs:
  "mallocs evs = [] \<Longrightarrow> mset (fold track evs live) = mset live - mset (frees evs)"
proof (induction evs arbitrary: live)
  case Nil
  then show ?case by (simp add: frees_def)
next
  case (Cons e evs)
  have m: "mallocs evs = []" using Cons.prems by (simp add: mallocs_def)
  show ?case
  proof (cases e)
    case (K_malloc b a)
    then show ?thesis using Cons.IH [OF m] Cons.prems by (simp add: mallocs_def frees_def split: if_splits)
  next
    case (K_free a)
    have "mset (remove1 a live) - mset (frees evs) = mset live - ({#a#} + mset (frees evs))"
      by (simp add: diff_diff_add)
    then show ?thesis using Cons.IH [OF m] K_free by (simp add: frees_def)
  qed (use Cons.IH [OF m] in \<open>simp_all add: frees_def\<close>)
qed

lemma release_events_members:
  assumes "q \<in> set xs" and "segs q \<noteq> 0"
  shows "K_free (segs q) \<in> set (concat (map (release_events env img segs) xs)) \<and>
         Unmap_pages (seg_first_page img q) (seg_pages img q) (unmap_result env q)
           \<in> set (concat (map (release_events env img segs) xs))"
  using assms by (auto simp: release_events_def)

lemma seg_a: "seg_first_page img2 0 = 0x400000" "seg_pages img2 0 = 2"
  "seg_first_page img1 0 = 0x400000" "seg_pages img1 0 = 2"
  by (simp_all add: seg_first_page_def seg_pages_def seg_bytes_def img2_def img1_def hdr_a_def
      page_align_def PAGE_SIZE_def)

lemma seg_b: "seg_first_page img2 (Suc 0) = 0x600000" "seg_pages img2 (Suc 0) = 2"
  by (simp_all add: seg_first_page_def seg_pages_def seg_bytes_def img2_def hdr_b_def
      page_align_def PAGE_SIZE_def)

lemma page_range_2: "page_range a 2 = [a, a + 0x1000]"
proof -
  have u: "unat (2 :: 64 word) = Suc (Suc 0)" by simp
  show ?thesis unfolding page_range_def u by (simp add: PAGE_SIZE_def)
qed

lemma load_a: "load_segment env_l img2 fl0 0 st_l = (st_a, False)"
  by (simp add: load_segment_def Let_def img2_def hdr_a_def env_l_def st_l_def page_align_def
      PAGE_SIZE_def page_range_2 page_present_def emit_def map_pages_def aligned_block_def
      page_aligned_def insert_commute st_a_def)

lemma load_a1: "load_segment env_l img1 fl0 0 st_l = (st_a, False)"
  by (simp add: load_segment_def Let_def img1_def hdr_a_def env_l_def st_l_def page_align_def
      PAGE_SIZE_def page_range_2 page_present_def emit_def map_pages_def aligned_block_def
      page_aligned_def insert_commute st_a_def)

lemma copy_n_2: "copy_n m d s 2 = (m(d := m s))(d + 1 := (m(d := m s)) (s + 1))"
  by (simp add: numeral_2_eq_2)

lemma load_b:
  "load_segment env_l img2 fl0 (Suc 0) st_a =
     (st_a\<lparr>allocated_segments := (\<lambda>p. 0)(0 := 0x200000, Suc 0 := 0),
           trace := trace st_a @ [Print_line ''Some pages are already mapped'']\<rparr>, True)"
  by (simp add: load_segment_def Let_def img2_def hdr_b_def page_align_def
      PAGE_SIZE_def page_range_2 page_present_def emit_def st_a_def)

lemma upt_2: "[0..<unat (2 :: 16 word)] = [0, 1]"
proof -
  have u: "unat (2 :: 16 word) = Suc (Suc 0)" by simp
  show ?thesis unfolding u by simp
qed

lemma alloc_img2: "allocate_segments env_l img2 fl0 st_l = (fst (load_segment env_l img2 fl0 (Suc 0) st_a), True)"
proof -
  have "[0..<unat (e_phnum img2)] = [0, Suc 0]" using upt_2 by (simp add: img2_def)
  thus ?thesis by (simp add: allocate_segments_def load_a load_b)
qed

lemma release_img2:
  "trace (release_segments env_l img2 (fst (allocate_segments env_l img2 fl0 st_l))) =
     [K_malloc 0x1012 0x200000, Map_pages 0x400000 0x200000 2 fl0 True,
      Copy_n 0x200010 0x10040 2, Print_line ''Some pages are already mapped'',
      K_free 0x200000, Unmap_pages 0x400000 2 True]"
proof -
  have n: "[0..<unat (e_phnum img2)] = [0, Suc 0]" using upt_2 by (simp add: img2_def)
  show ?thesis
    unfolding alloc_img2 release_segments_fields(3) n load_b fst_conv
    by (simp add: release_events_def seg_a env_l_def st_a_def)
qed

lemma conflict_stale:
  "list_ex (page_present st_stale) (page_range (seg_first_page img2 0) (seg_pages img2 0))"
  by (simp add: seg_a page_range_2 page_present_def st_stale_def page_align_def PAGE_SIZE_def)

lemma load_stale:
  "load_segment env_l img2 fl0 0 st_stale =
     (st_stale\<lparr>allocated_segments := (\<lambda>p. 0x700000)(0 := 0),
               trace := [Print_line ''Some pages are already mapped'']\<rparr>, True)"
  by (simp add: load_segment_def Let_def img2_def hdr_a_def page_align_def
      PAGE_SIZE_def page_range_2 page_present_def emit_def st_stale_def)

lemma upt_1: "[0..<unat (1 :: 16 word)] = [0]"
  by simp

lemma alloc_img1: "allocate_segments env_l img1 fl0 st_l = (st_a, False)"
proof -
  have "[0..<unat (e_phnum img1)] = [0]" by (simp add: img1_def)
  thus ?thesis by (simp add: allocate_segments_def load_a1)
qed

lemma release_fold_empty:
  "\<forall>q \<in> set xs. allocated_segments st q = 0 \<Longrightarrow> fold (release_segment env img) xs st = st"
  by (induction xs) (simp_all add: release_segment_def)

lemma read_elf_file_rejects:
  assumes "read_file env file = [] \<or> \<not> is_valid env (read_file env file)"
  shows "read_elf_file env file name st =
           (emit [Print name,
                  Print_line (if read_file env file = []
                              then '': The file does not exist or is empty''
                              else '': This file is not an ELF file or not in ELF64 format'')] st,
            None)"
  using assms by (auto simp: read_elf_file_def Let_def)

subsection \<open>The claims about the loader\<close>

text \<open>
  Claim C1. The copy in \<open>allocate_segments\<close> takes its count from \<open>p_memsz\<close>, not from
  \<open>p_filesize\<close>. For a segment with one byte in the file and two bytes in memory the
  loader copies two bytes from the image at \<open>file_offset\<close> to
  \<open>aligned_base + left_padding\<close>: the second byte of the region, which lies beyond
  \<open>file_size\<close>, is overwritten with the image byte that follows the segment's data.
\<close>

theorem copy_count_is_memory_size:
  "p_filesize (program_header_table img1 0) = 1 \<and>
   p_memsz (program_header_table img1 0) = 2 \<and>
   mem st_l 0x200011 = 0xEE \<and>
   mem st_l (buffer img1 + p_offset (program_header_table img1 0) + 1) = 0x22 \<and>
   snd (allocate_segments env_l img1 fl0 st_l) = False \<and>
   trace (fst (allocate_segments env_l img1 fl0 st_l)) =
     [K_malloc 0x1012 0x200000, Map_pages 0x400000 0x200000 2 fl0 True,
      Copy_n 0x200010 0x10040 2] \<and>
   mem (fst (allocate_segments env_l img1 fl0 st_l)) 0x200010 = 0x11 \<and>
   mem (fst (allocate_segments env_l img1 fl0 st_l)) 0x200011 = 0x22"
  unfolding alloc_img1 fst_conv snd_conv
  by (simp add: img1_def hdr_a_def st_l_def st_a_def copy_n_2)

text \<open>
  Claim C2 as stated does not hold. When the second of two loadable segments finds its
  page already mapped, the load fails and cleanup frees and unmaps the first segment,
  but the slot of the first segment still holds the handle \<open>0x200000\<close> afterwards:
  cleanup does not leave the handle array empty.
\<close>

theorem failed_load_handle_kept:
  "snd (allocate_segments env_l img2 fl0 st_l) \<and>
   frees (trace (release_segments env_l img2 (fst (allocate_segments env_l img2 fl0 st_l))))
     = [0x200000] \<and>
   allocated_segments
     (release_segments env_l img2 (fst (allocate_segments env_l img2 fl0 st_l))) 0 = 0x200000"
proof -
  have a: "snd (allocate_segments env_l img2 fl0 st_l)" by (simp add: alloc_img2)
  have f: "frees (trace (release_segments env_l img2 (fst (allocate_segments env_l img2 fl0 st_l))))
             = [0x200000]"
    unfolding release_img2 by (simp add: frees_def)
  have k: "allocated_segments
             (release_segments env_l img2 (fst (allocate_segments env_l img2 fl0 st_l))) 0 = 0x200000"
    unfolding alloc_img2 fst_conv release_segments_fields(1) load_b
    by (simp add: st_a_def)
  show ?thesis using a f k by simp
qed

text \<open>
  Claim C2, amended. Let the load reach program header \<open>p\<close> without failure, and let
  that header be loadable with one of its pages already mapped, or with \<open>k_malloc\<close>
  failing, or with \<open>map_pages\<close> failing. Then \<open>allocate_segments\<close> reports failure in the
  state in which header \<open>p\<close> left it, so no later header is processed. The cleanup that
  follows frees every block the load obtained and unmaps the page range of its segment,
  so that no block obtained by the load is left allocated. The handle array is not
  cleared: every slot keeps the value it had when the load stopped.
\<close>

theorem failed_load_is_released:
  fixes env :: kernel_env and img :: elf_image and flags :: "8 word"
    and st0 stp :: loader_state and p :: nat
  defines "n \<equiv> unat (e_phnum img)"
  defines "st1 \<equiv> fst (load_segment env img flags p stp)"
  defines "st2 \<equiv> release_segments env img st1"
  assumes p: "p < n"
    and pre: "allocate_loop env img flags [0..<p] st0 = (stp, False)"
    and loadable: "p_type (program_header_table img p) = 1"
    and fail: "list_ex (page_present stp) (page_range (seg_first_page img p) (seg_pages img p)) \<or>
               malloc_result env p = 0 \<or> \<not> map_result env p"
  shows "allocate_segments env img flags st0 = (st1, True) \<and>
         allocated_segments st2 = allocated_segments st1 \<and>
         (\<exists>load_evs rel_evs.
            trace st1 = trace st0 @ load_evs \<and>
            trace st2 = trace st1 @ rel_evs \<and>
            frees load_evs = [] \<and>
            mallocs load_evs = filter (\<lambda>a. a \<noteq> 0) (map (allocated_segments st1) [0..<Suc p]) \<and>
            rel_evs = concat (map (release_events env img (allocated_segments st1)) [0..<n]) \<and>
            (\<forall>q < n. allocated_segments st1 q \<noteq> 0 \<longrightarrow>
               K_free (allocated_segments st1 q) \<in> set rel_evs \<and>
               Unmap_pages (seg_first_page img q) (seg_pages img q) (unmap_result env q) \<in> set rel_evs) \<and>
            mset (mallocs load_evs) \<subseteq># mset (frees rel_evs) \<and>
            tracked_handles (load_evs @ rel_evs) = [])"
proof -
  have fl: "snd (load_segment env img flags p stp)"
    using loadable fail by (simp add: load_segment_cases(1))
  note core = abort_then_release [OF p [unfolded n_def] pre fl]
  have a: "allocate_segments env img flags st0 = (st1, True)"
    unfolding st1_def by (rule core(1))
  from core(3) obtain load_evs where le: "trace st1 = trace st0 @ load_evs"
      "mallocs load_evs = filter (\<lambda>a. a \<noteq> 0) (map (allocated_segments st1) [0..<Suc p])"
      "frees load_evs = []"
    unfolding st1_def by blast
  define rel_evs where "rel_evs = concat (map (release_events env img (allocated_segments st1)) [0..<n])"
  have tr2: "trace st2 = trace st1 @ rel_evs"
    unfolding st2_def rel_evs_def n_def by (rule release_segments_fields(3))
  have fr: "frees rel_evs = filter (\<lambda>a. a \<noteq> 0) (map (allocated_segments st1) [0..<n])"
    unfolding rel_evs_def by (rule frees_release_events)
  have nm: "mallocs rel_evs = []"
    unfolding rel_evs_def by (rule mallocs_release_events)
  have split: "[0..<n] = [0..<Suc p] @ [Suc p..<n]"
    using upt_add_eq_append [of 0 "Suc p" "n - Suc p"] p by simp
  have fr2: "frees rel_evs = mallocs load_evs @
               filter (\<lambda>a. a \<noteq> 0) (map (allocated_segments st1) [Suc p..<n])"
    unfolding fr le(2) by (subst split) simp
  have sub: "mset (mallocs load_evs) \<subseteq># mset (frees rel_evs)"
    by (simp add: fr2)
  have mem: "\<forall>q < n. allocated_segments st1 q \<noteq> 0 \<longrightarrow>
               K_free (allocated_segments st1 q) \<in> set rel_evs \<and>
               Unmap_pages (seg_first_page img q) (seg_pages img q) (unmap_result env q) \<in> set rel_evs"
    unfolding rel_evs_def using release_events_members [of _ "[0..<n]" "allocated_segments st1" env img]
    by simp
  have "mset (fold track load_evs []) = mset (mallocs load_evs)"
    using track_no_frees [OF le(3), of "[]"] by simp
  hence "mset (fold track rel_evs (fold track load_evs [])) = mset (mallocs load_evs) - mset (frees rel_evs)"
    using track_no_mallocs [OF nm, of "fold track load_evs []"] by simp
  hence "mset (tracked_handles (load_evs @ rel_evs)) = {#}"
    using sub by (simp add: tracked_handles_def Diff_eq_empty_iff_mset)
  hence th: "tracked_handles (load_evs @ rel_evs) = []" by simp
  have keep: "allocated_segments st2 = allocated_segments st1"
    unfolding st2_def by (rule release_segments_fields(1))
  show ?thesis
    using a keep le tr2 mem sub th rel_evs_def by blast
qed

theorem failed_load_is_released_witness:
  "Suc 0 < unat (e_phnum img2) \<and> p_type (program_header_table img2 (Suc 0)) = 1 \<and>
   allocate_loop env_l img2 fl0 [0..<Suc 0] st_l = (st_a, False) \<and>
   list_ex (page_present st_a) (page_range (seg_first_page img2 (Suc 0)) (seg_pages img2 (Suc 0))) \<and>
   allocate_segments env_l img2 fl0 st_l = (fst (load_segment env_l img2 fl0 (Suc 0) st_a), True) \<and>
   trace (release_segments env_l img2 (fst (load_segment env_l img2 fl0 (Suc 0) st_a))) =
     [K_malloc 0x1012 0x200000, Map_pages 0x400000 0x200000 2 fl0 True,
      Copy_n 0x200010 0x10040 2, Print_line ''Some pages are already mapped'',
      K_free 0x200000, Unmap_pages 0x400000 2 True] \<and>
   tracked_handles (trace (release_segments env_l img2 (fst (load_segment env_l img2 fl0 (Suc 0) st_a)))) = []"
proof -
  have h1: "Suc 0 < unat (e_phnum img2)" by (simp add: img2_def)
  have h2: "p_type (program_header_table img2 (Suc 0)) = 1" by (simp add: img2_def hdr_b_def)
  have h3: "allocate_loop env_l img2 fl0 [0..<Suc 0] st_l = (st_a, False)" by (simp add: load_a)
  have h4: "list_ex (page_present st_a) (page_range (seg_first_page img2 (Suc 0)) (seg_pages img2 (Suc 0)))"
    by (simp add: seg_b page_range_2 page_present_def st_a_def page_align_def PAGE_SIZE_def)
  from failed_load_is_released [OF h1 h3 h2 disjI1 [OF h4]]
  obtain load_evs rel_evs where
      a: "allocate_segments env_l img2 fl0 st_l = (fst (load_segment env_l img2 fl0 (Suc 0) st_a), True)"
      and t1: "trace (fst (load_segment env_l img2 fl0 (Suc 0) st_a)) = trace st_l @ load_evs"
      and t2: "trace (release_segments env_l img2 (fst (load_segment env_l img2 fl0 (Suc 0) st_a))) =
             trace (fst (load_segment env_l img2 fl0 (Suc 0) st_a)) @ rel_evs"
      and z: "tracked_handles (load_evs @ rel_evs) = []"
    by blast
  have e: "trace st_l = []" by (simp add: st_l_def)
  have z': "tracked_handles (trace (release_segments env_l img2 (fst (load_segment env_l img2 fl0 (Suc 0) st_a)))) = []"
    using z t1 t2 e by simp
  show ?thesis
    using h1 h2 h3 h4 a z' release_img2 [unfolded alloc_img2 fst_conv] by simp
qed

text \<open>
  Claim C3 as stated does not hold. After a one-segment image has been loaded and
  released, a second call of \<open>release_segments\<close> on the same handle array frees the block
  and unmaps the page range once more.
\<close>

theorem second_cleanup_frees_again:
  "trace (release_segments env_l img1
            (release_segments env_l img1 (fst (allocate_segments env_l img1 fl0 st_l)))) =
     [K_malloc 0x1012 0x200000, Map_pages 0x400000 0x200000 2 fl0 True,
      Copy_n 0x200010 0x10040 2,
      K_free 0x200000, Unmap_pages 0x400000 2 True,
      K_free 0x200000, Unmap_pages 0x400000 2 True]"
proof -
  have n: "[0..<unat (e_phnum img1)] = [0]" by (simp add: img1_def)
  show ?thesis
    unfolding alloc_img1 fst_conv release_segments_fields n
    by (simp add: release_events_def seg_a env_l_def st_a_def)
qed

text \<open>
  Claim C3, amended. \<open>release_segments\<close> never writes the handle array, so a second
  cleanup of the same segment records frees and unmaps exactly the handles the first one
  did. Only a handle array whose slots are all empty is a stable state: on it cleanup,
  called once or twice, performs no free and no unmap and changes nothing.
\<close>

theorem cleanup_repeats_unless_empty:
  fixes env env' :: kernel_env and img :: elf_image and st :: loader_state
  defines "n \<equiv> unat (e_phnum img)"
  defines "st1 \<equiv> release_segments env img st"
  defines "st2 \<equiv> release_segments env' img st1"
  shows "allocated_segments st1 = allocated_segments st \<and>
         (\<exists>evs1 evs2.
            trace st1 = trace st @ evs1 \<and> trace st2 = trace st1 @ evs2 \<and>
            evs1 = concat (map (release_events env img (allocated_segments st)) [0..<n]) \<and>
            evs2 = concat (map (release_events env' img (allocated_segments st)) [0..<n]) \<and>
            frees evs1 = filter (\<lambda>a. a \<noteq> 0) (map (allocated_segments st) [0..<n]) \<and>
            frees evs2 = frees evs1) \<and>
         ((\<forall>q < n. allocated_segments st q = 0) \<longrightarrow> st1 = st \<and> st2 = st)"
proof -
  have k: "allocated_segments st1 = allocated_segments st"
    unfolding st1_def by (rule release_segments_fields(1))
  define evs1 where "evs1 = concat (map (release_events env img (allocated_segments st)) [0..<n])"
  define evs2 where "evs2 = concat (map (release_events env' img (allocated_segments st)) [0..<n])"
  have t1: "trace st1 = trace st @ evs1"
    unfolding st1_def evs1_def n_def by (rule release_segments_fields(3))
  have t2: "trace st2 = trace st1 @ evs2"
    unfolding st2_def evs2_def n_def k [symmetric] by (rule release_segments_fields(3))
  have f1: "frees evs1 = filter (\<lambda>a. a \<noteq> 0) (map (allocated_segments st) [0..<n])"
    unfolding evs1_def by (rule frees_release_events)
  have f2: "frees evs2 = frees evs1"
    unfolding f1 evs2_def by (rule frees_release_events)
  have e: "(\<forall>q < n. allocated_segments st q = 0) \<longrightarrow> st1 = st \<and> st2 = st"
  proof
    assume z: "\<forall>q < n. allocated_segments st q = 0"
    hence "\<forall>q \<in> set [0..<n]. allocated_segments st q = 0" by simp
    hence a: "st1 = st"
      unfolding st1_def release_segments_def n_def by (rule release_fold_empty)
    from z have "\<forall>q \<in> set [0..<n]. allocated_segments st q = 0" by simp
    hence "release_segments env' img st = st"
      unfolding release_segments_def n_def by (rule release_fold_empty)
    thus "st1 = st \<and> st2 = st" using a by (simp add: st2_def)
  qed
  show ?thesis using k t1 t2 f1 f2 e evs1_def evs2_def by blast
qed

theorem cleanup_repeats_unless_empty_witness:
  "allocated_segments st_l = (\<lambda>p. 0) \<and>
   release_segments env_l img2 st_l = st_l \<and>
   release_segments env_l img2 (release_segments env_l img2 st_l) = st_l"
proof -
  have e: "allocated_segments st_l = (\<lambda>p. 0)" by (simp add: st_l_def)
  hence z: "\<forall>q < unat (e_phnum img2). allocated_segments st_l q = 0" by simp
  from cleanup_repeats_unless_empty [of env_l img2 st_l env_l] z
  show ?thesis using e by simp
qed

text \<open>
  Claim C4 as stated does not hold. Releasing a loaded one-segment image calls \<open>k_free\<close>
  on the block first and \<open>unmap_pages\<close> on its page range afterwards.
\<close>

theorem free_precedes_unmap:
  "trace (release_segments env_l img1 (fst (allocate_segments env_l img1 fl0 st_l))) =
     [K_malloc 0x1012 0x200000, Map_pages 0x400000 0x200000 2 fl0 True,
      Copy_n 0x200010 0x10040 2,
      K_free 0x200000, Unmap_pages 0x400000 2 True]"
proof -
  have n: "[0..<unat (e_phnum img1)] = [0]" by (simp add: img1_def)
  show ?thesis
    unfolding alloc_img1 fst_conv release_segments_fields n
    by (simp add: release_events_def seg_a env_l_def st_a_def)
qed

text \<open>
  Claim C4, amended. For every segment with a non-empty handle, release frees the block
  first and unmaps the page range of the segment directly afterwards, followed at most
  by the message for a failed unmap. A segment without a handle is not touched, so the
  whole cleanup consists of these calls for the non-empty slots, in header order. A
  segment that \<open>allocate_segments\<close> leaves without a handle has received no mapping from
  the loader.
\<close>

theorem release_frees_then_unmaps:
  fixes env :: kernel_env and img :: elf_image and st st' :: loader_state
  shows "(allocated_segments st p \<noteq> 0 \<longrightarrow>
            (\<exists>msgs. trace (release_segment env img p st) =
                      trace st @ [K_free (allocated_segments st p),
                                  Unmap_pages (seg_first_page img p) (seg_pages img p)
                                    (unmap_result env p)] @ msgs \<and>
                    set msgs \<subseteq> {Print_line ''Unmap failed, memory could be in invalid state''})) \<and>
         (allocated_segments st p = 0 \<longrightarrow> release_segment env img p st = st) \<and>
         trace (release_segments env img st) =
           trace st @ concat (map (release_events env img (allocated_segments st))
                                  [0..<unat (e_phnum img)]) \<and>
         (allocated_segments (fst (load_segment env img flags p st')) p = 0 \<longrightarrow>
            present (fst (load_segment env img flags p st')) = present st' \<and>
            (\<exists>evs. trace (fst (load_segment env img flags p st')) = trace st' @ evs \<and>
                   maps evs = []))"
proof -
  have a: "allocated_segments st p \<noteq> 0 \<longrightarrow>
            (\<exists>msgs. trace (release_segment env img p st) =
                      trace st @ [K_free (allocated_segments st p),
                                  Unmap_pages (seg_first_page img p) (seg_pages img p)
                                    (unmap_result env p)] @ msgs \<and>
                    set msgs \<subseteq> {Print_line ''Unmap failed, memory could be in invalid state''})"
    by (simp add: release_segment_fields(3) release_events_def)
  have b: "allocated_segments st p = 0 \<longrightarrow> release_segment env img p st = st"
    by (simp add: release_segment_def)
  have c: "allocated_segments (fst (load_segment env img flags p st')) p = 0 \<longrightarrow>
            present (fst (load_segment env img flags p st')) = present st' \<and>
            (\<exists>evs. trace (fst (load_segment env img flags p st')) = trace st' @ evs \<and>
                   maps evs = [])"
    using load_segment_cases(4) [of env img flags p st'] load_segment_cases(5) [of env img flags p st']
    by blast
  show ?thesis using a b c release_segments_fields(3) [of env img st] by blast
qed

theorem release_frees_then_unmaps_witness:
  "allocated_segments st_a 0 \<noteq> 0 \<and>
   trace (release_segment env_l img1 0 st_a) =
     trace st_a @ [K_free 0x200000, Unmap_pages 0x400000 2 True] \<and>
   allocated_segments st_l 0 = 0 \<and> release_segment env_l img1 0 st_l = st_l \<and>
   allocated_segments (fst (load_segment env_l img2 fl0 (Suc 0) st_a)) (Suc 0) = 0 \<and>
   present (fst (load_segment env_l img2 fl0 (Suc 0) st_a)) = present st_a"
proof -
  have h1: "allocated_segments st_a 0 = 0x200000" by (simp add: st_a_def)
  have h2: "allocated_segments st_l 0 = 0" by (simp add: st_l_def)
  have h3: "allocated_segments (fst (load_segment env_l img2 fl0 (Suc 0) st_a)) (Suc 0) = 0"
    unfolding load_b by simp
  have u: "unmap_result env_l 0" by (simp add: env_l_def)
  from release_frees_then_unmaps [where st = st_a and p = 0 and env = env_l and img = img1 and flags = fl0 and st' = st_l] h1
  obtain msgs where m: "trace (release_segment env_l img1 0 st_a) =
       trace st_a @ [K_free 0x200000, Unmap_pages 0x400000 2 True] @ msgs"
    by (auto simp: seg_a u)
  have "msgs = []"
    using m by (simp add: release_segment_fields(3) release_events_def h1 seg_a u)
  hence a: "trace (release_segment env_l img1 0 st_a) =
     trace st_a @ [K_free 0x200000, Unmap_pages 0x400000 2 True]" using m by simp
  from release_frees_then_unmaps [where st = st_l and p = 0 and env = env_l and img = img1 and flags = fl0 and st' = st_l] h2
  have b: "release_segment env_l img1 0 st_l = st_l" by blast
  from release_frees_then_unmaps [where st = st_a and p = "Suc 0" and env = env_l and img = img2 and flags = fl0 and st' = st_a] h3
  have c: "present (fst (load_segment env_l img2 fl0 (Suc 0) st_a)) = present st_a" by blast
  show ?thesis using h1 h2 h3 a b c by simp
qed

text \<open>
  Claim C9. When the file is empty or fails the ELF check, \<open>exec_command\<close> returns to
  the shell with memory, page mappings and handle array unchanged; all it does is
  print. When the command got as far as reading the file, what it prints is its name
  followed by the message for an empty file or for an invalid one; \<open>execin_command\<close>
  behaves the same way.
\<close>

theorem invalid_image_touches_nothing:
  assumes bad: "read_file env (params ! 1) = [] \<or> \<not> is_valid env (read_file env (params ! 1))"
  shows "\<exists>st' evs.
           exec_command env params st = Returned st' \<and>
           mem st' = mem st \<and> present st' = present st \<and>
           allocated_segments st' = allocated_segments st \<and>
           trace st' = trace st @ evs \<and> evs \<noteq> [] \<and> (\<forall>e \<in> set evs. is_print e) \<and>
           mallocs evs = [] \<and> maps evs = [] \<and>
           (2 \<le> length params \<and> mounted_partition env \<and> mounted_disk env \<longrightarrow>
              evs = [Print ''exec'',
                     Print_line (if read_file env (params ! 1) = []
                                 then '': The file does not exist or is empty''
                                 else '': This file is not an ELF file or not in ELF64 format'')] \<and>
              execin_command env params st =
                emit [Print ''execin'',
                      Print_line (if read_file env (params ! 1) = []
                                  then '': The file does not exist or is empty''
                                  else '': This file is not an ELF file or not in ELF64 format'')] st)"
proof -
  note r = read_elf_file_rejects [OF bad, unfolded One_nat_def]
  consider (short) "length params < 2"
    | (unmounted) "2 \<le> length params" "\<not> mounted_partition env \<or> \<not> mounted_disk env"
    | (checked) "2 \<le> length params" "mounted_partition env" "mounted_disk env"
    by linarith
  then show ?thesis
  proof cases
    case short
    then show ?thesis
      by (simp add: exec_command_def emit_def is_print_def mallocs_def maps_def)
  next
    case unmounted
    then show ?thesis
      by (auto simp: exec_command_def emit_def is_print_def mallocs_def maps_def)
  next
    case checked
    then show ?thesis
      by (simp add: exec_command_def execin_command_def r emit_def is_print_def mallocs_def maps_def)
  qed
qed

theorem invalid_image_touches_nothing_witness:
  "read_file env_l ([''exec'', ''prog''] ! 1) = [] \<and>
   exec_command env_l [''exec'', ''prog''] st_l =
     Returned (st_l\<lparr>trace := [Print ''exec'', Print_line '': The file does not exist or is empty'']\<rparr>)"
proof -
  have e: "read_file env_l ([''exec'', ''prog''] ! 1) = []" by (simp add: env_l_def)
  have m: "mounted_partition env_l" "mounted_disk env_l" by (simp_all add: env_l_def)
  from invalid_image_touches_nothing [OF disjI1 [OF e], of st_l]
  obtain st' evs where x: "exec_command env_l [''exec'', ''prog''] st_l = Returned st'"
      "mem st' = mem st_l" "present st' = present st_l"
      "allocated_segments st' = allocated_segments st_l" "trace st' = trace st_l @ evs"
      "evs = [Print ''exec'', Print_line '': The file does not exist or is empty'']"
    using m e by auto
  have "st' = st_l\<lparr>trace := [Print ''exec'', Print_line '': The file does not exist or is empty'']\<rparr>"
    using x(2-6) by (simp add: st_l_def)
  thus ?thesis using e x(1) by simp
qed

text \<open>
  Claim C10. Under the failure conditions of claim C2 at program header \<open>p\<close>,
  \<open>allocate_segments\<close> leaves every slot after \<open>p\<close> as it found it. \<open>release_segments\<close>
  does not write the array either, looks at all \<open>e_phnum\<close> slots and frees every
  non-empty one: first the blocks the load obtained, then whatever non-empty values the
  slots after \<open>p\<close> held from the start. The freed blocks are exactly the blocks the load
  obtained if and only if all those later slots were empty.
\<close>

theorem unwritten_slots_reach_cleanup:
  fixes env :: kernel_env and img :: elf_image and flags :: "8 word"
    and st0 stp :: loader_state and p :: nat
  defines "n \<equiv> unat (e_phnum img)"
  defines "st1 \<equiv> fst (load_segment env img flags p stp)"
  defines "st2 \<equiv> release_segments env img st1"
  assumes p: "p < n"
    and pre: "allocate_loop env img flags [0..<p] st0 = (stp, False)"
    and loadable: "p_type (program_header_table img p) = 1"
    and fail: "list_ex (page_present stp) (page_range (seg_first_page img p) (seg_pages img p)) \<or>
               malloc_result env p = 0 \<or> \<not> map_result env p"
  shows "allocate_segments env img flags st0 = (st1, True) \<and>
         (\<forall>q. p < q \<longrightarrow> allocated_segments st1 q = allocated_segments st0 q) \<and>
         allocated_segments st2 = allocated_segments st1 \<and>
         (\<exists>load_evs rel_evs.
            trace st1 = trace st0 @ load_evs \<and>
            trace st2 = trace st1 @ rel_evs \<and>
            rel_evs = concat (map (release_events env img (allocated_segments st1)) [0..<n]) \<and>
            frees rel_evs = filter (\<lambda>a. a \<noteq> 0) (map (allocated_segments st1) [0..<n]) \<and>
            frees rel_evs = mallocs load_evs @
               filter (\<lambda>a. a \<noteq> 0) (map (allocated_segments st0) [Suc p..<n]) \<and>
            (frees rel_evs = mallocs load_evs \<longleftrightarrow>
               (\<forall>q. p < q \<and> q < n \<longrightarrow> allocated_segments st0 q = 0)))"
proof -
  have fl: "snd (load_segment env img flags p stp)"
    using loadable fail by (simp add: load_segment_cases(1))
  note core = abort_then_release [OF p [unfolded n_def] pre fl]
  have a: "allocate_segments env img flags st0 = (st1, True)"
    unfolding st1_def by (rule core(1))
  have un: "\<forall>q. p < q \<longrightarrow> allocated_segments st1 q = allocated_segments st0 q"
    unfolding st1_def by (rule core(2))
  have keep: "allocated_segments st2 = allocated_segments st1"
    unfolding st2_def by (rule release_segments_fields(1))
  from core(3) obtain load_evs where le: "trace st1 = trace st0 @ load_evs"
      "mallocs load_evs = filter (\<lambda>a. a \<noteq> 0) (map (allocated_segments st1) [0..<Suc p])"
    unfolding st1_def by blast
  define rel_evs where "rel_evs = concat (map (release_events env img (allocated_segments st1)) [0..<n])"
  have tr2: "trace st2 = trace st1 @ rel_evs"
    unfolding st2_def rel_evs_def n_def by (rule release_segments_fields(3))
  have fr: "frees rel_evs = filter (\<lambda>a. a \<noteq> 0) (map (allocated_segments st1) [0..<n])"
    unfolding rel_evs_def by (rule frees_release_events)
  have split: "[0..<n] = [0..<Suc p] @ [Suc p..<n]"
    using upt_add_eq_append [of 0 "Suc p" "n - Suc p"] p by simp
  have tail: "map (allocated_segments st1) [Suc p..<n] = map (allocated_segments st0) [Suc p..<n]"
    using un by simp
  have "frees rel_evs = mallocs load_evs @
               filter (\<lambda>a. a \<noteq> 0) (map (allocated_segments st1) [Suc p..<n])"
    unfolding fr le(2) by (subst split) simp
  hence fr2: "frees rel_evs = mallocs load_evs @
               filter (\<lambda>a. a \<noteq> 0) (map (allocated_segments st0) [Suc p..<n])"
    by (simp only: tail)
  have "(frees rel_evs = mallocs load_evs) =
        (filter (\<lambda>a. a \<noteq> 0) (map (allocated_segments st0) [Suc p..<n]) = [])"
    unfolding fr2 by simp
  also have "\<dots> = (\<forall>q. p < q \<and> q < n \<longrightarrow> allocated_segments st0 q = 0)"
    by (auto simp: filter_empty_conv)
  finally have iff: "(frees rel_evs = mallocs load_evs) =
                     (\<forall>q. p < q \<and> q < n \<longrightarrow> allocated_segments st0 q = 0)" .
  show ?thesis
    using a un keep le(1) tr2 fr fr2 iff rel_evs_def by blast
qed

theorem unwritten_slots_reach_cleanup_witness:
  "0 < unat (e_phnum img2) \<and> p_type (program_header_table img2 0) = 1 \<and>
   allocate_loop env_l img2 fl0 [0..<0] st_stale = (st_stale, False) \<and>
   list_ex (page_present st_stale) (page_range (seg_first_page img2 0) (seg_pages img2 0)) \<and>
   snd (allocate_segments env_l img2 fl0 st_stale) \<and>
   allocated_segments (fst (allocate_segments env_l img2 fl0 st_stale)) (Suc 0) = 0x700000 \<and>
   frees (trace (release_segments env_l img2 (fst (allocate_segments env_l img2 fl0 st_stale))))
     = [0x700000]"
proof -
  have h1: "0 < unat (e_phnum img2)" by (simp add: img2_def)
  have h2: "p_type (program_header_table img2 0) = 1" by (simp add: img2_def hdr_a_def)
  have h3: "allocate_loop env_l img2 fl0 [0..<0] st_stale = (st_stale, False)" by simp
  note h4 = conflict_stale
  define st1 where "st1 = fst (load_segment env_l img2 fl0 0 st_stale)"
  from unwritten_slots_reach_cleanup [OF h1 h3 h2 disjI1 [OF h4]]
  obtain load_evs rel_evs where
      a: "allocate_segments env_l img2 fl0 st_stale = (st1, True)"
      and u: "\<forall>q. 0 < q \<longrightarrow> allocated_segments st1 q = allocated_segments st_stale q"
      and t1: "trace st1 = trace st_stale @ load_evs"
      and t2: "trace (release_segments env_l img2 st1) = trace st1 @ rel_evs"
      and f: "frees rel_evs = mallocs load_evs @
               filter (\<lambda>a. a \<noteq> 0) (map (allocated_segments st_stale) [Suc 0..<unat (e_phnum img2)])"
    unfolding st1_def by blast
  have s1: "allocated_segments st1 (Suc 0) = 0x700000"
    using u by (simp add: st_stale_def)
  have l: "load_evs = [Print_line ''Some pages are already mapped'']"
    using t1 unfolding st1_def load_stale by (simp add: st_stale_def)
  have n: "[Suc 0..<unat (e_phnum img2)] = [Suc 0]"
  proof -
    have "unat (e_phnum img2) = Suc (Suc 0)" by (simp add: img2_def)
    thus ?thesis by simp
  qed
  have "frees (trace (release_segments env_l img2 st1)) = [0x700000]"
    unfolding t2 t1 frees_append f n l
    by (simp add: st_stale_def frees_def mallocs_def)
  thus ?thesis using h1 h2 h3 h4 a s1 by simp
qed

end
